theory Spec2Isabelle
  imports Main "HOL-Library.Sublist"
begin

section \<open>JavaScript values as the transaction-mode library sees them\<close>

text \<open>
  The library \<^verbatim>\<open>lib/txMode.js\<close> is one constructor, \<^verbatim>\<open>TransactionMode\<close>, and one
  frozen object, \<^verbatim>\<open>isolationLevel\<close>. The constructor accepts any JavaScript values, so
  the embedding starts with the values and with the language's coercions that the
  constructor applies to them: \<^verbatim>\<open>typeof\<close>, truthiness, property reads, the comparison
  \<^verbatim>\<open>x > 0\<close> and \<^verbatim>\<open>parseInt\<close>. The module is taken as loaded: its globals, the
  built-in prototypes and the function's own \<^verbatim>\<open>prototype\<close> object are as the language
  and the module made them.

  \<^item> A number is \<^verbatim>\<open>NaN\<close>, an infinity, the negative zero, or a finite decimal:
    \<open>Fin m e\<close> is the double nearest to \<open>m * 10 ^ e\<close>. A number passed to the constructor
    is written as the decimal the language prints for it (the shortest that reads
    back), which is the text \<^verbatim>\<open>parseInt\<close> reads. The type has more decimals than there
    are doubles, so a statement about all numbers of the model covers all doubles. A
    number read from a string is kept as the decimal read once its magnitude rounds
    neither to zero nor to an infinity; the constructor only compares it with 0 and
    with 4 and subtracts 1 from 1, 2 or 3, which rounding to the nearest double does
    not change.
  \<^item> A string is a list of UTF-16 code units, each a natural number. The strings the
    constructor builds come from ASCII literals only and are kept as \<open>string\<close>.
  \<^item> A symbol has no content the constructor could read; a big integer is its value.
  \<^item> An object is: whether it is callable; its own properties, each a data property
    or an accessor whose getter returns a value or throws (first binding of a name
    wins); its prototype, if that can answer a read; and what the two conversions
    to a primitive value give that the constructor may ask for, first with the hint
    number (in \<^verbatim>\<open>tiLevel > 0\<close>), then with the hint string (in \<^verbatim>\<open>parseInt\<close>). Each
    property is read at most once and each conversion made at most once, in a fixed
    order, so this is all the constructor can observe of an object, whether its
    methods keep state or not. A proxy is the object with the accessors its traps
    amount to.
  \<^item> An exception is a value: \<^verbatim>\<open>TypeError\<close> when the language refuses a conversion,
    \<open>UserException\<close> when code of an object (a getter, a trap, a conversion method)
    throws.
\<close>

datatype error = TypeError | UserException

datatype number = NaN | PosInf | NegInf | NegZero | Fin int int

type_synonym code_unit = nat

datatype prim =
    JUndefined
  | JNull
  | JBoolean bool
  | JNumber number
  | JString "code_unit list"
  | JSymbol
  | JBigInt int

datatype method_outcome = NotCallable | Throws | ReturnsObject | ReturnsPrim prim

datatype jsval =
    Prim prim
  | Object (callable: bool) (slots: "(string \<times> slot) list") (parent: "jsval option")
      (by_number: "error + prim") (by_string: "error + prim")
and slot = Data jsval | GetterReturns jsval | GetterThrows

datatype hint = HintNumber | HintString

datatype numeric = NumNumber number | NumBigInt int

definition units :: "string \<Rightarrow> code_unit list" where
  "units s = map of_char s"

subsection \<open>Decimal arithmetic on finite numbers\<close>

definition dec_less :: "int \<Rightarrow> int \<Rightarrow> int \<Rightarrow> int \<Rightarrow> bool" where
  \<comment> \<open>\<open>m1 * 10 ^ e1 < m2 * 10 ^ e2\<close>, both sides scaled to the smaller exponent.\<close>
  "dec_less m1 e1 m2 e2 =
     (let e = min e1 e2 in m1 * 10 ^ nat (e1 - e) < m2 * 10 ^ nat (e2 - e))"

definition dec_le_pow2 :: "int \<Rightarrow> int \<Rightarrow> int \<Rightarrow> int \<Rightarrow> bool" where
  \<comment> \<open>\<open>a * 10 ^ e \<le> b * 2 ^ k\<close>, both sides multiplied by the missing powers.\<close>
  "dec_le_pow2 a e b k =
     (a * 10 ^ nat e * 2 ^ nat (- k) \<le> b * 2 ^ nat k * 10 ^ nat (- e))"

fun Number_lessThan :: "number \<Rightarrow> number \<Rightarrow> bool option" where
  \<comment> \<open>\<open>None\<close> is the language's \<^verbatim>\<open>undefined\<close> result: one side is \<^verbatim>\<open>NaN\<close>.\<close>
  "Number_lessThan NaN _ = None"
| "Number_lessThan _ NaN = None"
| "Number_lessThan PosInf _ = Some False"
| "Number_lessThan _ NegInf = Some False"
| "Number_lessThan NegInf _ = Some True"
| "Number_lessThan _ PosInf = Some True"
| "Number_lessThan NegZero NegZero = Some False"
| "Number_lessThan NegZero (Fin m2 e2) = Some (dec_less 0 0 m2 e2)"
| "Number_lessThan (Fin m1 e1) NegZero = Some (dec_less m1 e1 0 0)"
| "Number_lessThan (Fin m1 e1) (Fin m2 e2) = Some (dec_less m1 e1 m2 e2)"

definition number_lt :: "number \<Rightarrow> number \<Rightarrow> bool" where
  \<comment> \<open>The operator \<^verbatim>\<open><\<close> on two numbers: an undefined comparison is \<^verbatim>\<open>false\<close>.\<close>
  "number_lt x y = (Number_lessThan x y = Some True)"

definition number_gt :: "number \<Rightarrow> number \<Rightarrow> bool" where
  "number_gt x y = (Number_lessThan y x = Some True)"

fun number_sub :: "number \<Rightarrow> number \<Rightarrow> number" where
  "number_sub NaN _ = NaN"
| "number_sub _ NaN = NaN"
| "number_sub PosInf PosInf = NaN"
| "number_sub NegInf NegInf = NaN"
| "number_sub PosInf _ = PosInf"
| "number_sub NegInf _ = NegInf"
| "number_sub _ PosInf = NegInf"
| "number_sub _ NegInf = PosInf"
| "number_sub NegZero NegZero = Fin 0 0"
| "number_sub NegZero (Fin m2 e2) = (if m2 = 0 then NegZero else Fin (- m2) e2)"
| "number_sub (Fin m1 e1) NegZero = Fin m1 e1"
| "number_sub (Fin m1 e1) (Fin m2 e2) =
     (let e = min e1 e2 in Fin (m1 * 10 ^ nat (e1 - e) - m2 * 10 ^ nat (e2 - e)) e)"

definition pow2_le_dec :: "int \<Rightarrow> int \<Rightarrow> int \<Rightarrow> int \<Rightarrow> bool" where
  \<comment> \<open>\<open>b * 2 ^ k \<le> a * 10 ^ e\<close>.\<close>
  "pow2_le_dec b k a e =
     (b * 2 ^ nat k * 10 ^ nat (- e) \<le> a * 10 ^ nat e * 2 ^ nat (- k))"

fun number_negate :: "number \<Rightarrow> number" where
  "number_negate NaN = NaN"
| "number_negate PosInf = NegInf"
| "number_negate NegInf = PosInf"
| "number_negate NegZero = Fin 0 0"
| "number_negate (Fin m e) = (if m = 0 then NegZero else Fin (- m) e)"

definition round_to_double_range :: "number \<Rightarrow> number" where
  \<comment> \<open>Reading digits rounds to the nearest double, ties to even: a magnitude of at
      most \<open>2 ^ -1075\<close> becomes a zero, one of at least
      \<open>2 ^ 1024 - 2 ^ 970 = (2 ^ 54 - 1) * 2 ^ 970\<close> an infinity. In between the decimal
      is kept as read.\<close>
  "round_to_double_range x =
     (case x of
        Fin m e \<Rightarrow>
          if m = 0 then Fin 0 0
          else if dec_le_pow2 \<bar>m\<bar> e 1 (- 1075) then (if 0 < m then Fin 0 0 else NegZero)
          else if pow2_le_dec (2 ^ 54 - 1) 970 \<bar>m\<bar> e
               then (if 0 < m then PosInf else NegInf)
          else Fin m e
      | _ \<Rightarrow> x)"

definition signed :: "bool \<Rightarrow> number \<Rightarrow> number" where
  \<comment> \<open>The number read after a sign: \<open>negative\<close> says the sign was \<^verbatim>\<open>-\<close>.\<close>
  "signed negative x = (if negative then number_negate x else x)"

subsection \<open>Characters of numeric literals\<close>

definition is_StrWhiteSpaceChar :: "code_unit \<Rightarrow> bool" where
  \<comment> \<open>White space and line terminators: TAB, LF, VT, FF, CR, SP, NBSP, the space
      separators of Unicode, LS, PS and the byte order mark.\<close>
  "is_StrWhiteSpaceChar c =
     (c \<in> {9, 10, 11, 12, 13, 32, 160, 5760, 8232, 8233, 8239, 8287, 12288, 65279}
      \<or> (8192 \<le> c \<and> c \<le> 8202))"

definition digit_of :: "code_unit \<Rightarrow> nat option" where
  \<comment> \<open>The value of a digit \<^verbatim>\<open>0-9\<close>, \<^verbatim>\<open>a-z\<close> or \<^verbatim>\<open>A-Z\<close>.\<close>
  "digit_of c =
     (if 48 \<le> c \<and> c \<le> 57 then Some (c - 48)
      else if 97 \<le> c \<and> c \<le> 122 then Some (c - 87)
      else if 65 \<le> c \<and> c \<le> 90 then Some (c - 55)
      else None)"

definition is_digit :: "nat \<Rightarrow> code_unit \<Rightarrow> bool" where
  "is_digit R c = (case digit_of c of None \<Rightarrow> False | Some d \<Rightarrow> d < R)"

definition digits_value :: "nat \<Rightarrow> code_unit list \<Rightarrow> int" where
  \<comment> \<open>The mathematical value of a digit string in radix \<open>R\<close>; the empty string is 0.\<close>
  "digits_value R ds =
     foldl (\<lambda>acc c. acc * int R + (case digit_of c of None \<Rightarrow> 0 | Some d \<Rightarrow> int d)) 0 ds"

definition trim_ws :: "code_unit list \<Rightarrow> code_unit list" where
  "trim_ws s = rev (dropWhile is_StrWhiteSpaceChar (rev (dropWhile is_StrWhiteSpaceChar s)))"

fun digit_char :: "nat \<Rightarrow> code_unit" where
  "digit_char d = 48 + d"

fun digits_of_nat :: "nat \<Rightarrow> code_unit list" where
  "digits_of_nat n = (if n < 10 then [digit_char n] else digits_of_nat (n div 10) @ [digit_char (n mod 10)])"

subsection \<open>\<^verbatim>\<open>typeof\<close>, truthiness, property reads\<close>

fun typeof :: "jsval \<Rightarrow> string" where
  "typeof (Prim JUndefined) = ''undefined''"
| "typeof (Prim JNull) = ''object''"
| "typeof (Prim (JBoolean _)) = ''boolean''"
| "typeof (Prim (JNumber _)) = ''number''"
| "typeof (Prim (JString _)) = ''string''"
| "typeof (Prim JSymbol) = ''symbol''"
| "typeof (Prim (JBigInt _)) = ''bigint''"
| "typeof (Object c _ _ _ _) = (if c then ''function'' else ''object'')"

fun ToBoolean :: "jsval \<Rightarrow> bool" where
  "ToBoolean (Prim JUndefined) = False"
| "ToBoolean (Prim JNull) = False"
| "ToBoolean (Prim (JBoolean b)) = b"
| "ToBoolean (Prim (JNumber NaN)) = False"
| "ToBoolean (Prim (JNumber NegZero)) = False"
| "ToBoolean (Prim (JNumber (Fin m e))) = (m \<noteq> 0)"
| "ToBoolean (Prim (JNumber _)) = True"
| "ToBoolean (Prim (JString s)) = (s \<noteq> [])"
| "ToBoolean (Prim JSymbol) = True"
| "ToBoolean (Prim (JBigInt b)) = (b \<noteq> 0)"
| "ToBoolean (Object _ _ _ _ _) = True"

fun get_prop :: "jsval \<Rightarrow> string \<Rightarrow> error + jsval" where
  \<comment> \<open>\<^verbatim>\<open>o.name\<close>: the own property if there is one, a data property by its value and
      an accessor by running its getter, which may throw; otherwise the read goes on
      in the prototype; where the chain ends the property reads as \<^verbatim>\<open>undefined\<close>. The
      constructor reads properties of objects only.\<close>
  "get_prop (Object c ss p bn bs) name =
     (case map_of ss name of
        Some (Data v) \<Rightarrow> Inr v
      | Some (GetterReturns v) \<Rightarrow> Inr v
      | Some GetterThrows \<Rightarrow> Inl UserException
      | None \<Rightarrow> (case p of None \<Rightarrow> Inr (Prim JUndefined) | Some q \<Rightarrow> get_prop q name))"
| "get_prop (Prim _) name = Inr (Prim JUndefined)"

subsection \<open>Conversion to a primitive value, to a number, to a string\<close>

fun OrdinaryToPrimitive :: "method_outcome \<Rightarrow> method_outcome \<Rightarrow> error + prim" where
  \<comment> \<open>The two methods in the order the hint gives; the first that is callable and
      returns a primitive value decides, an exception of a method propagates, and with
      neither the conversion is a \<^verbatim>\<open>TypeError\<close>.\<close>
  "OrdinaryToPrimitive (ReturnsPrim p) _ = Inr p"
| "OrdinaryToPrimitive Throws _ = Inl UserException"
| "OrdinaryToPrimitive _ (ReturnsPrim p) = Inr p"
| "OrdinaryToPrimitive _ Throws = Inl UserException"
| "OrdinaryToPrimitive _ _ = Inl TypeError"

fun ToPrimitive :: "jsval \<Rightarrow> hint \<Rightarrow> error + prim" where
  \<comment> \<open>For an object, what the conversion gives at the point where the constructor
      asks for it.\<close>
  "ToPrimitive (Prim p) _ = Inr p"
| "ToPrimitive (Object _ _ _ bn bs) HintNumber = bn"
| "ToPrimitive (Object _ _ _ bn bs) HintString = bs"

definition parse_exponent :: "code_unit list \<Rightarrow> int option" where
  \<comment> \<open>What follows the mantissa: nothing, or \<^verbatim>\<open>e\<close>/\<^verbatim>\<open>E\<close>, an optional sign and digits.\<close>
  "parse_exponent r =
     (case r of
        [] \<Rightarrow> Some 0
      | c # r1 \<Rightarrow>
          if c = 101 \<or> c = 69 then
            (let neg = (r1 \<noteq> [] \<and> hd r1 = 45);
                 r2 = (if r1 \<noteq> [] \<and> (hd r1 = 45 \<or> hd r1 = 43) then tl r1 else r1)
             in if r2 \<noteq> [] \<and> list_all (is_digit 10) r2
                then Some ((if neg then - 1 else 1) * digits_value 10 r2)
                else None)
          else None)"

definition parse_unsigned_decimal :: "code_unit list \<Rightarrow> (int \<times> int) option" where
  \<comment> \<open>\<^verbatim>\<open>digits [. digits] [exponent]\<close> or \<^verbatim>\<open>. digits [exponent]\<close>, the whole string: the
      mantissa as an integer and the decimal exponent.\<close>
  "parse_unsigned_decimal s =
     (let ip = takeWhile (is_digit 10) s;
          r1 = dropWhile (is_digit 10) s;
          dot = (r1 \<noteq> [] \<and> hd r1 = 46);
          fp = (if dot then takeWhile (is_digit 10) (tl r1) else []);
          r2 = (if dot then dropWhile (is_digit 10) (tl r1) else r1)
      in if ip = [] \<and> fp = [] then None
         else (case parse_exponent r2 of
                 None \<Rightarrow> None
               | Some x \<Rightarrow> Some (digits_value 10 (ip @ fp), x - int (length fp))))"

definition parse_radix_literal :: "nat \<Rightarrow> code_unit list \<Rightarrow> number" where
  "parse_radix_literal R ds =
     (if ds \<noteq> [] \<and> list_all (is_digit R) ds
      then round_to_double_range (Fin (digits_value R ds) 0) else NaN)"

definition StringToNumber :: "code_unit list \<Rightarrow> number" where
  "StringToNumber str =
     (let s = trim_ws str in
      if s = [] then Fin 0 0
      else if take 2 s = units ''0x'' \<or> take 2 s = units ''0X'' then parse_radix_literal 16 (drop 2 s)
      else if take 2 s = units ''0o'' \<or> take 2 s = units ''0O'' then parse_radix_literal 8 (drop 2 s)
      else if take 2 s = units ''0b'' \<or> take 2 s = units ''0B'' then parse_radix_literal 2 (drop 2 s)
      else
        (let neg = (hd s = 45);
             r = (if hd s = 45 \<or> hd s = 43 then tl s else s)
         in if r = units ''Infinity'' then (if neg then NegInf else PosInf)
            else (case parse_unsigned_decimal r of
                    None \<Rightarrow> NaN
                  | Some (m, e) \<Rightarrow> signed neg (round_to_double_range (Fin m e)))))"

fun ToNumber :: "prim \<Rightarrow> error + number" where
  "ToNumber JUndefined = Inr NaN"
| "ToNumber JNull = Inr (Fin 0 0)"
| "ToNumber (JBoolean b) = Inr (if b then Fin 1 0 else Fin 0 0)"
| "ToNumber (JNumber n) = Inr n"
| "ToNumber (JString s) = Inr (StringToNumber s)"
| "ToNumber JSymbol = Inl TypeError"
| "ToNumber (JBigInt _) = Inl TypeError"

fun ToNumeric :: "prim \<Rightarrow> error + numeric" where
  "ToNumeric (JBigInt b) = Inr (NumBigInt b)"
| "ToNumeric p = (case ToNumber p of Inl e \<Rightarrow> Inl e | Inr n \<Rightarrow> Inr (NumNumber n))"

definition greater_than_number :: "jsval \<Rightarrow> number \<Rightarrow> error + bool" where
  \<comment> \<open>\<^verbatim>\<open>x > c\<close> for a number \<open>c\<close>: \<open>x\<close> is converted to a primitive value with the hint
      number, then to a numeric value; a big integer is compared by its value, and an
      undefined comparison is \<^verbatim>\<open>false\<close>.\<close>
  "greater_than_number x c =
     (case ToPrimitive x HintNumber of
        Inl e \<Rightarrow> Inl e
      | Inr p \<Rightarrow>
          (case ToNumeric p of
             Inl e \<Rightarrow> Inl e
           | Inr (NumNumber n) \<Rightarrow> Inr (number_gt n c)
           | Inr (NumBigInt b) \<Rightarrow> Inr (number_gt (Fin b 0) c)))"

function strip_zeros :: "nat \<Rightarrow> int \<Rightarrow> nat \<times> int" where
  "strip_zeros m e = (if m \<noteq> 0 \<and> m mod 10 = 0 then strip_zeros (m div 10) (e + 1) else (m, e))"
  by pat_completeness auto
termination
  by (relation "measure fst") auto

definition exponent_part :: "int \<Rightarrow> code_unit list" where
  "exponent_part x = units ''e'' @ (if 0 \<le> x then units ''+'' else units ''-'') @ digits_of_nat (nat \<bar>x\<bar>)"

definition positive_toString :: "nat \<Rightarrow> int \<Rightarrow> code_unit list" where
  \<comment> \<open>\<open>Number::toString\<close> in radix 10 for \<open>m * 10 ^ e\<close>, \<open>m > 0\<close>: with \<open>s\<close> the digits
      without trailing zeros, \<open>k\<close> their count and \<open>n\<close> the position of the decimal
      point.\<close>
  "positive_toString m e =
     (let (s, e') = strip_zeros m e;
          ds = digits_of_nat s;
          k = int (length ds);
          n = e' + k
      in if k \<le> n \<and> n \<le> 21 then ds @ replicate (nat (n - k)) 48
         else if 0 < n \<and> n \<le> 21 then take (nat n) ds @ units ''.'' @ drop (nat n) ds
         else if - 6 < n \<and> n \<le> 0 then units ''0.'' @ replicate (nat (- n)) 48 @ ds
         else if k = 1 then ds @ exponent_part (n - 1)
         else take 1 ds @ units ''.'' @ drop 1 ds @ exponent_part (n - 1))"

fun Number_toString :: "number \<Rightarrow> code_unit list" where
  "Number_toString NaN = units ''NaN''"
| "Number_toString PosInf = units ''Infinity''"
| "Number_toString NegInf = units ''-Infinity''"
| "Number_toString NegZero = units ''0''"
| "Number_toString (Fin m e) =
     (if m = 0 then units ''0''
      else if m < 0 then units ''-'' @ positive_toString (nat (- m)) e
      else positive_toString (nat m) e)"

fun ToString_prim :: "prim \<Rightarrow> error + code_unit list" where
  "ToString_prim JUndefined = Inr (units ''undefined'')"
| "ToString_prim JNull = Inr (units ''null'')"
| "ToString_prim (JBoolean b) = Inr (if b then units ''true'' else units ''false'')"
| "ToString_prim (JNumber n) = Inr (Number_toString n)"
| "ToString_prim (JString s) = Inr s"
| "ToString_prim JSymbol = Inl TypeError"
| "ToString_prim (JBigInt b) =
     Inr (if b < 0 then units ''-'' @ digits_of_nat (nat (- b)) else digits_of_nat (nat b))"

definition ToString :: "jsval \<Rightarrow> error + code_unit list" where
  "ToString x =
     (case ToPrimitive x HintString of Inl e \<Rightarrow> Inl e | Inr p \<Rightarrow> ToString_prim p)"

definition parseInt_string :: "code_unit list \<Rightarrow> number" where
  \<comment> \<open>\<^verbatim>\<open>parseInt\<close> with no radix: leading white space and a sign are skipped, \<^verbatim>\<open>0x\<close> or
      \<^verbatim>\<open>0X\<close> selects radix 16, and the longest prefix of digits is read; no digit gives
      \<^verbatim>\<open>NaN\<close>. The integer read becomes a number: an infinity when it is too large for a
      double, the negative zero for zero after \<^verbatim>\<open>-\<close>.\<close>
  "parseInt_string inputString =
     (let s0 = dropWhile is_StrWhiteSpaceChar inputString;
          negative = (s0 \<noteq> [] \<and> hd s0 = 45);
          s1 = (if s0 \<noteq> [] \<and> (hd s0 = 43 \<or> hd s0 = 45) then tl s0 else s0);
          hex = (take 2 s1 = units ''0x'' \<or> take 2 s1 = units ''0X'');
          R = (if hex then 16 else 10);
          s2 = (if hex then drop 2 s1 else s1);
          z = takeWhile (is_digit R) s2
      in if z = [] then NaN
         else signed negative (round_to_double_range (Fin (digits_value R z) 0)))"

definition parseInt :: "jsval \<Rightarrow> error + number" where
  "parseInt x = (case ToString x of Inl e \<Rightarrow> Inl e | Inr s \<Rightarrow> Inr (parseInt_string s))"

section \<open>The constructor \<^verbatim>\<open>TransactionMode\<close>\<close>

text \<open>
  The constructor's local variables \<^verbatim>\<open>isolationLevel\<close>, \<^verbatim>\<open>accessMode\<close> and
  \<^verbatim>\<open>deferrableMode\<close> are either \<^verbatim>\<open>undefined\<close> or a string built from literals: they are
  optional strings, \<open>None\<close> for \<^verbatim>\<open>undefined\<close>. The instance keeps the two strings
  \<^verbatim>\<open>begin\<close> and \<^verbatim>\<open>capBegin\<close> in the closure of its method \<^verbatim>\<open>begin\<close>.
\<close>

record builder =
  begin_str :: string
  capBegin :: string

datatype this_binding = NewInstance | OtherThis

definition toUpperCase_char :: "char \<Rightarrow> char" where
  \<comment> \<open>Upper case on ASCII, which is all the constructor's strings hold.\<close>
  "toUpperCase_char c =
     (if (97::nat) \<le> of_char c \<and> of_char c \<le> (122::nat)
      then char_of (of_char c - (32::nat)) else c)"

definition toUpperCase :: "string \<Rightarrow> string" where
  "toUpperCase s = map toUpperCase_char s"

definition values_array :: "string list" where
  "values_array = [''serializable'', ''repeatable read'', ''read committed'']"

definition array_index :: "number \<Rightarrow> nat option" where
  \<comment> \<open>The array index a number names as a property key: a non-negative integer; the
      negative zero names the key \<^verbatim>\<open>0\<close>.\<close>
  "array_index x =
     (case x of
        Fin m e \<Rightarrow>
          if 0 \<le> m \<and> (0 \<le> e \<or> m mod 10 ^ nat (- e) = 0)
          then Some (nat (m * 10 ^ nat e div 10 ^ nat (- e)))
          else None
      | NegZero \<Rightarrow> Some 0
      | _ \<Rightarrow> None)"

definition array_get :: "string list \<Rightarrow> number \<Rightarrow> string option" where
  \<comment> \<open>\<^verbatim>\<open>xs[i]\<close>: \<^verbatim>\<open>undefined\<close> (\<open>None\<close>) when \<open>i\<close> is no index of the array.\<close>
  "array_get xs i =
     (case array_index i of
        None \<Rightarrow> None
      | Some k \<Rightarrow> if k < length xs then Some (xs ! k) else None)"

definition concat_string :: "string \<Rightarrow> string option \<Rightarrow> string" where
  \<comment> \<open>\<^verbatim>\<open>s + v\<close> for a string \<open>s\<close> and a \<open>v\<close> that is a string or \<^verbatim>\<open>undefined\<close>.\<close>
  "concat_string s v = s @ (case v of None \<Rightarrow> ''undefined'' | Some t \<Rightarrow> t)"

definition truthy_local :: "string option \<Rightarrow> bool" where
  "truthy_local v = (case v of None \<Rightarrow> False | Some s \<Rightarrow> s \<noteq> [])"

definition unpack :: "jsval \<Rightarrow> jsval \<Rightarrow> jsval \<Rightarrow> error + jsval \<times> jsval \<times> jsval" where
  \<comment> \<open>Lines 59 to 63: a first argument that is truthy and of type \<^verbatim>\<open>object\<close> replaces
      all three parameters by its properties, read in the order \<^verbatim>\<open>readOnly\<close>,
      \<^verbatim>\<open>deferrable\<close>, \<^verbatim>\<open>tiLevel\<close>; the first read that throws ends the constructor. The
      result is the triple \<^verbatim>\<open>(tiLevel, readOnly, deferrable)\<close>.\<close>
  "unpack tiLevel readOnly deferrable =
     (if ToBoolean tiLevel \<and> typeof tiLevel = ''object''
      then (case get_prop tiLevel ''readOnly'' of
              Inl e \<Rightarrow> Inl e
            | Inr r \<Rightarrow>
                (case get_prop tiLevel ''deferrable'' of
                   Inl e \<Rightarrow> Inl e
                 | Inr d \<Rightarrow>
                     (case get_prop tiLevel ''tiLevel'' of
                        Inl e \<Rightarrow> Inl e
                      | Inr t \<Rightarrow> Inr (t, r, d))))
      else Inr (tiLevel, readOnly, deferrable))"

definition normalize_tiLevel :: "jsval \<Rightarrow> error + number" where
  \<comment> \<open>Line 67: \<^verbatim>\<open>tiLevel = (tiLevel > 0) ? parseInt(tiLevel) : 0\<close>.\<close>
  "normalize_tiLevel tiLevel =
     (case greater_than_number tiLevel (Fin 0 0) of
        Inl e \<Rightarrow> Inl e
      | Inr gt \<Rightarrow> if gt then parseInt tiLevel else Inr (Fin 0 0))"

definition isolationLevel_clause :: "number \<Rightarrow> string option" where
  \<comment> \<open>Lines 69 to 72.\<close>
  "isolationLevel_clause tiLevel =
     (if number_gt tiLevel (Fin 0 0) \<and> number_lt tiLevel (Fin 4 0)
      then Some (concat_string ''isolation level ''
                   (array_get values_array (number_sub tiLevel (Fin 1 0))))
      else None)"

definition accessMode_clause :: "jsval \<Rightarrow> string option" where
  \<comment> \<open>Lines 74 to 80.\<close>
  "accessMode_clause readOnly =
     (if ToBoolean readOnly then Some ''read only''
      else if readOnly \<noteq> Prim JUndefined then Some ''read write''
      else None)"

definition deferrableMode_clause :: "jsval \<Rightarrow> string option" where
  \<comment> \<open>Lines 82 to 88.\<close>
  "deferrableMode_clause deferrable =
     (if ToBoolean deferrable then Some ''deferrable''
      else if deferrable \<noteq> Prim JUndefined then Some ''not deferrable''
      else None)"

definition append_clause :: "string \<Rightarrow> string option \<Rightarrow> string" where
  \<comment> \<open>\<^verbatim>\<open>if (clause) { begin += ' ' + clause; }\<close>\<close>
  "append_clause b clause =
     (if truthy_local clause then b @ concat_string '' '' clause else b)"

definition assemble :: "string option \<Rightarrow> string option \<Rightarrow> string option \<Rightarrow> builder" where
  \<comment> \<open>Lines 90 to 106.\<close>
  "assemble isolationLevel accessMode deferrableMode =
     (let b0 = ''begin'';
          b1 = append_clause b0 isolationLevel;
          b2 = append_clause b1 accessMode;
          b3 = append_clause b2 deferrableMode
      in \<lparr>begin_str = b3, capBegin = toUpperCase b3\<rparr>)"

definition TransactionMode_body :: "jsval \<Rightarrow> jsval \<Rightarrow> jsval \<Rightarrow> error + builder" where
  \<comment> \<open>The constructor from line 59 on, run on the instance under construction.\<close>
  "TransactionMode_body a1 a2 a3 =
     (case unpack a1 a2 a3 of
        Inl e \<Rightarrow> Inl e
      | Inr (tiLevel, readOnly, deferrable) \<Rightarrow>
          (case normalize_tiLevel tiLevel of
             Inl e \<Rightarrow> Inl e
           | Inr n \<Rightarrow>
               Inr (assemble (isolationLevel_clause n) (accessMode_clause readOnly)
                      (deferrableMode_clause deferrable))))"

function TransactionMode :: "this_binding \<Rightarrow> jsval \<Rightarrow> jsval \<Rightarrow> jsval \<Rightarrow> error + builder" where
  \<comment> \<open>Lines 55 to 57. \<open>OtherThis\<close>: a plain call, \<^verbatim>\<open>this\<close> is no instance and the function
      calls itself with \<^verbatim>\<open>new\<close>. \<open>NewInstance\<close>: called by \<^verbatim>\<open>new\<close>, \<^verbatim>\<open>this\<close> is the fresh
      instance. A missing argument is \<^verbatim>\<open>undefined\<close>.\<close>
  "TransactionMode OtherThis tiLevel readOnly deferrable =
     TransactionMode NewInstance tiLevel readOnly deferrable"
| "TransactionMode NewInstance tiLevel readOnly deferrable =
     TransactionMode_body tiLevel readOnly deferrable"
  by pat_completeness auto
termination
  by (relation "measure (\<lambda>(this, _). if this = NewInstance then 0 else 1)") auto

definition begin_fn :: "builder \<Rightarrow> jsval \<Rightarrow> string \<times> builder" where
  \<comment> \<open>The method \<^verbatim>\<open>begin(cap)\<close>: the string returned and the instance's state after the
      call.\<close>
  "begin_fn b cap = (if ToBoolean cap then capBegin b else begin_str b, b)"

section \<open>The registry \<^verbatim>\<open>isolationLevel\<close>\<close>

text \<open>
  Lines 8 to 22 build an object literal and freeze it. The object is its own data
  properties, each a value with the attributes writable, enumerable and configurable,
  its prototype and whether it is extensible. The ways a program can try to alter an
  object are the object's internal methods. An attempt is done, or refused (the
  method answers \<^verbatim>\<open>false\<close>), or it throws; where an attempt would make a property an
  accessor the object leaves what this type can hold, which is marked. Strict code
  turns a refused assignment or deletion into a \<^verbatim>\<open>TypeError\<close>, as
  \<^verbatim>\<open>Object.defineProperty\<close> and \<^verbatim>\<open>Object.setPrototypeOf\<close> always do; sloppy code and
  \<^verbatim>\<open>Reflect\<close> carry on.

  A prototype is \<^verbatim>\<open>Object.prototype\<close>, \<^verbatim>\<open>null\<close>, or an object of the program, written as
  a value; such a value is an object of its own, never \<^verbatim>\<open>Object.prototype\<close>.
  \<^verbatim>\<open>Object.prototype\<close> has one accessor, \<^verbatim>\<open>__proto__\<close>; its other properties are writable
  data properties. What an object of the program would answer as a prototype to an
  assignment is not followed: such an attempt leaves the model.
\<close>

record property =
  pvalue :: jsval
  writable :: bool
  enumerable :: bool
  configurable :: bool

datatype prototype = ObjectPrototype | NullPrototype | ValuePrototype jsval

record ordinary_object =
  own :: "(string \<times> property) list"
  proto :: prototype
  extensible :: bool

record descriptor =
  d_value :: "jsval option"
  d_writable :: "bool option"
  d_enumerable :: "bool option"
  d_configurable :: "bool option"
  d_accessor :: bool

datatype alteration =
    Assign string jsval
  | AssignProto prototype
  | Delete string
  | DefineProperty string descriptor
  | PreventExtensions
  | SetPrototypeOf prototype

datatype outcome = Done | Refused | Thrown | LeavesModel

definition object_literal :: "(string \<times> jsval) list \<Rightarrow> ordinary_object" where
  "object_literal kvs =
     \<lparr>own = map (\<lambda>(k, v). (k, \<lparr>pvalue = v, writable = True, enumerable = True,
                                 configurable = True\<rparr>)) kvs,
      proto = ObjectPrototype, extensible = True\<rparr>"

definition Object_freeze :: "ordinary_object \<Rightarrow> ordinary_object" where
  "Object_freeze obj =
     obj\<lparr>own := map (\<lambda>(k, p). (k, p\<lparr>writable := False, configurable := False\<rparr>)) (own obj),
         extensible := False\<rparr>"

definition int_value :: "int \<Rightarrow> jsval" where
  "int_value i = Prim (JNumber (Fin i 0))"

definition isolationLevel :: ordinary_object where
  "isolationLevel =
     Object_freeze (object_literal
       [(''none'', int_value 0), (''serializable'', int_value 1),
        (''repeatableRead'', int_value 2), (''readCommitted'', int_value 3)])"

definition SameValue :: "jsval \<Rightarrow> jsval \<Rightarrow> bool" where
  \<comment> \<open>Two finite numbers are the same value when their decimals are equal; the
      negative zero is the same value as itself only; every other pair is compared as
      the model writes it.\<close>
  "SameValue x y =
     (case (x, y) of
        (Prim (JNumber (Fin m1 e1)), Prim (JNumber (Fin m2 e2))) \<Rightarrow>
          \<not> dec_less m1 e1 m2 e2 \<and> \<not> dec_less m2 e2 m1 e1
      | _ \<Rightarrow> x = y)"

definition set_own :: "string \<Rightarrow> property \<Rightarrow> ordinary_object \<Rightarrow> ordinary_object" where
  "set_own k p obj =
     obj\<lparr>own := (if k \<in> set (map fst (own obj))
                  then map (\<lambda>(k', q). if k' = k then (k', p) else (k', q)) (own obj)
                  else own obj @ [(k, p)])\<rparr>"

definition SetPrototypeOf_method ::
  "prototype \<Rightarrow> ordinary_object \<Rightarrow> outcome \<times> ordinary_object" where
  "SetPrototypeOf_method v obj =
     (if v = proto obj then (Done, obj)
      else if extensible obj then (Done, obj\<lparr>proto := v\<rparr>)
      else (Refused, obj))"

definition proto_setter :: "prototype option \<Rightarrow> ordinary_object \<Rightarrow> outcome \<times> ordinary_object" where
  \<comment> \<open>The setter of \<^verbatim>\<open>__proto__\<close>: a value that is neither an object nor \<^verbatim>\<open>null\<close>
      (\<open>None\<close>) is ignored; otherwise the prototype is set, and a refusal is thrown.\<close>
  "proto_setter v obj =
     (case v of
        None \<Rightarrow> (Done, obj)
      | Some p \<Rightarrow>
          (case SetPrototypeOf_method p obj of
             (Refused, obj') \<Rightarrow> (Thrown, obj')
           | r \<Rightarrow> r))"

fun as_prototype :: "jsval \<Rightarrow> prototype option" where
  "as_prototype (Prim JNull) = Some NullPrototype"
| "as_prototype (Prim _) = None"
| "as_prototype v = Some (ValuePrototype v)"

definition Set_method :: "string \<Rightarrow> jsval \<Rightarrow> ordinary_object \<Rightarrow> outcome \<times> ordinary_object" where
  \<comment> \<open>\<^verbatim>\<open>obj[k] = v\<close>: a read-only own property refuses. With no own property the
      prototype is asked: under \<^verbatim>\<open>Object.prototype\<close> the name \<^verbatim>\<open>__proto__\<close> runs the
      inherited setter; any other name there, and every name under \<^verbatim>\<open>null\<close>, is
      created on the object when it is extensible.\<close>
  "Set_method k v obj =
     (case map_of (own obj) k of
        Some p \<Rightarrow> if writable p then (Done, set_own k (p\<lparr>pvalue := v\<rparr>) obj) else (Refused, obj)
      | None \<Rightarrow>
          (case proto obj of
             ValuePrototype _ \<Rightarrow> (LeavesModel, obj)
           | q \<Rightarrow>
               if k = ''__proto__'' \<and> q = ObjectPrototype then proto_setter (as_prototype v) obj
               else if extensible obj
               then (Done, set_own k \<lparr>pvalue = v, writable = True, enumerable = True,
                                      configurable = True\<rparr> obj)
               else (Refused, obj)))"

definition AssignProto_method :: "prototype \<Rightarrow> ordinary_object \<Rightarrow> outcome \<times> ordinary_object" where
  \<comment> \<open>\<^verbatim>\<open>obj.__proto__ = p\<close> for an object or \<^verbatim>\<open>null\<close> \<open>p\<close> named as a prototype.\<close>
  "AssignProto_method p obj =
     (case map_of (own obj) ''__proto__'' of
        Some q \<Rightarrow> (LeavesModel, obj)
      | None \<Rightarrow>
          if proto obj = ObjectPrototype then proto_setter (Some p) obj
          else (LeavesModel, obj))"

definition Delete_method :: "string \<Rightarrow> ordinary_object \<Rightarrow> outcome \<times> ordinary_object" where
  "Delete_method k obj =
     (case map_of (own obj) k of
        None \<Rightarrow> (Done, obj)
      | Some p \<Rightarrow>
          if configurable p then (Done, obj\<lparr>own := filter (\<lambda>(k', _). k' \<noteq> k) (own obj)\<rparr>)
          else (Refused, obj))"

definition apply_descriptor :: "descriptor \<Rightarrow> property \<Rightarrow> property" where
  "apply_descriptor d p =
     \<lparr>pvalue = (case d_value d of None \<Rightarrow> pvalue p | Some v \<Rightarrow> v),
      writable = (case d_writable d of None \<Rightarrow> writable p | Some b \<Rightarrow> b),
      enumerable = (case d_enumerable d of None \<Rightarrow> enumerable p | Some b \<Rightarrow> b),
      configurable = (case d_configurable d of None \<Rightarrow> configurable p | Some b \<Rightarrow> b)\<rparr>"

definition DefineOwnProperty_method ::
  "string \<Rightarrow> descriptor \<Rightarrow> ordinary_object \<Rightarrow> outcome \<times> ordinary_object" where
  \<comment> \<open>The validation of a descriptor against the current data property. Where the
      language would create an accessor property the object leaves the model.\<close>
  "DefineOwnProperty_method k d obj =
     (case map_of (own obj) k of
        None \<Rightarrow>
          if \<not> extensible obj then (Refused, obj)
          else if d_accessor d then (LeavesModel, obj)
          else (Done, set_own k (apply_descriptor d
                  \<lparr>pvalue = Prim JUndefined, writable = False, enumerable = False,
                   configurable = False\<rparr>) obj)
      | Some p \<Rightarrow>
          if configurable p
          then (if d_accessor d then (LeavesModel, obj)
                else (Done, set_own k (apply_descriptor d p) obj))
          else if d_configurable d = Some True then (Refused, obj)
          else if d_enumerable d \<noteq> None \<and> d_enumerable d \<noteq> Some (enumerable p) then (Refused, obj)
          else if d_accessor d then (Refused, obj)
          else if writable p then (Done, set_own k (apply_descriptor d p) obj)
          else if d_writable d = Some True then (Refused, obj)
          else (case d_value d of
                  None \<Rightarrow> (Done, obj)
                | Some v \<Rightarrow> if SameValue v (pvalue p) then (Done, obj) else (Refused, obj)))"

fun alter :: "alteration \<Rightarrow> ordinary_object \<Rightarrow> outcome \<times> ordinary_object" where
  "alter (Assign k v) obj = Set_method k v obj"
| "alter (AssignProto p) obj = AssignProto_method p obj"
| "alter (Delete k) obj = Delete_method k obj"
| "alter (DefineProperty k d) obj = DefineOwnProperty_method k d obj"
| "alter PreventExtensions obj = (Done, obj\<lparr>extensible := False\<rparr>)"
| "alter (SetPrototypeOf v) obj = SetPrototypeOf_method v obj"

definition alter_strict ::
  "alteration \<Rightarrow> ordinary_object \<Rightarrow> (error + ordinary_object) option" where
  \<comment> \<open>The attempt where a refusal is an exception; \<open>None\<close> where the model does not
      follow.\<close>
  "alter_strict a obj =
     (case alter a obj of
        (Done, obj') \<Rightarrow> Some (Inr obj')
      | (Refused, obj') \<Rightarrow> Some (Inl TypeError)
      | (Thrown, obj') \<Rightarrow> Some (Inl TypeError)
      | (LeavesModel, obj') \<Rightarrow> None)"

definition alter_sloppy ::
  "alteration \<Rightarrow> ordinary_object \<Rightarrow> (error + ordinary_object) option" where
  \<comment> \<open>The attempt where a refusal is passed over.\<close>
  "alter_sloppy a obj =
     (case alter a obj of
        (Done, obj') \<Rightarrow> Some (Inr obj')
      | (Refused, obj') \<Rightarrow> Some (Inr obj')
      | (Thrown, obj') \<Rightarrow> Some (Inl TypeError)
      | (LeavesModel, obj') \<Rightarrow> None)"

text \<open>
  What the constructor writes to objects. Its only assignment to a property is line
  104, \<^verbatim>\<open>this.begin = function ...\<close>, reached when nothing has thrown; every other
  assignment goes to a parameter or to a variable declared in the function (its
  \<^verbatim>\<open>var isolationLevel\<close> of line 65 hides the module's variable). \<^verbatim>\<open>this\<close> may be
  anything when the function is called: \<^verbatim>\<open>undefined\<close>, the registry itself (through
  \<^verbatim>\<open>call\<close> or \<^verbatim>\<open>apply\<close>), an instance, or another object. The registry inherits from
  \<^verbatim>\<open>Object.prototype\<close> only, so it is no instance. The method \<^verbatim>\<open>begin\<close> is one
  \<^verbatim>\<open>return\<close> and writes nothing.
\<close>

datatype this_object = ThisUndefined | ThisRegistry | ThisInstance | ThisOtherObject

definition instanceof_TransactionMode :: "this_object \<Rightarrow> bool" where
  "instanceof_TransactionMode this = (this = ThisInstance)"

definition this_binding_of :: "this_object \<Rightarrow> this_binding" where
  "this_binding_of this = (if instanceof_TransactionMode this then NewInstance else OtherThis)"

definition body_receiver :: "this_object \<Rightarrow> this_object" where
  \<comment> \<open>The object the body runs on: the fresh instance of \<^verbatim>\<open>new\<close> when line 55 finds
      that \<^verbatim>\<open>this\<close> is no instance.\<close>
  "body_receiver this = (if \<not> instanceof_TransactionMode this then ThisInstance else this)"

definition begin_function :: jsval where
  "begin_function = Object True [] None (Inl TypeError) (Inl TypeError)"

definition TransactionMode_writes ::
  "this_object \<Rightarrow> jsval \<Rightarrow> jsval \<Rightarrow> jsval \<Rightarrow> (this_object \<times> alteration) list" where
  "TransactionMode_writes this tiLevel readOnly deferrable =
     (case TransactionMode (this_binding_of this) tiLevel readOnly deferrable of
        Inl e \<Rightarrow> []
      | Inr b \<Rightarrow> [(body_receiver this, Assign ''begin'' begin_function)])"

definition begin_writes :: "builder \<Rightarrow> jsval \<Rightarrow> (this_object \<times> alteration) list" where
  "begin_writes b cap = []"

definition registry_after ::
  "(this_object \<times> alteration) list \<Rightarrow> ordinary_object \<Rightarrow> ordinary_object" where
  \<comment> \<open>The registry after a list of writes: those aimed at it are attempted on it.\<close>
  "registry_after ws obj =
     foldl (\<lambda>obj (target, a). if target = ThisRegistry then snd (alter a obj) else obj) obj ws"

section \<open>Notions the properties are stated with\<close>

fun occurrences :: "string \<Rightarrow> string \<Rightarrow> nat" where
  \<comment> \<open>At how many positions of \<open>t\<close> the string \<open>s\<close> starts.\<close>
  "occurrences s [] = (if s = [] then 1 else 0)"
| "occurrences s (c # cs) = (if prefix s (c # cs) then 1 else 0) + occurrences s cs"

definition iso_options :: "string option list" where
  "iso_options =
     [None, Some ''isolation level serializable'', Some ''isolation level repeatable read'',
      Some ''isolation level read committed'']"

definition access_options :: "string option list" where
  "access_options = [None, Some ''read only'', Some ''read write'']"

definition deferrable_options :: "string option list" where
  "deferrable_options = [None, Some ''deferrable'', Some ''not deferrable'']"

definition clause_triples :: "(string option \<times> string option \<times> string option) list" where
  "clause_triples =
     [(i, a, d). i \<leftarrow> iso_options, a \<leftarrow> access_options, d \<leftarrow> deferrable_options]"

definition commands :: "((string option \<times> string option \<times> string option) \<times> string) list" where
  \<comment> \<open>Every combination of clauses with the command the constructor assembles from it.\<close>
  "commands = map (\<lambda>(i, a, d). ((i, a, d), begin_str (assemble i a d))) clause_triples"

definition spaced :: "string option \<Rightarrow> string" where
  \<comment> \<open>What a clause contributes to the command: nothing when absent, one space and the
      clause when present.\<close>
  "spaced c = (case c of None \<Rightarrow> [] | Some s \<Rightarrow> CHR '' '' # s)"

definition once_after_begin :: "string \<Rightarrow> string \<Rightarrow> bool" where
  \<comment> \<open>The clause \<open>c\<close> stands in \<open>s\<close> right after \<^verbatim>\<open>begin\<close> and one space, and nowhere
      else.\<close>
  "once_after_begin c s = (prefix (''begin '' @ c) s \<and> occurrences c s = 1)"

definition convertible :: "jsval \<Rightarrow> bool" where
  \<comment> \<open>The value is a primitive value other than a symbol, or an object whose two
      conversions both give one.\<close>
  "convertible x =
     (case x of
        Prim p \<Rightarrow> p \<noteq> JSymbol
      | Object _ _ _ bn bs \<Rightarrow>
          (case bn of Inl _ \<Rightarrow> False | Inr p \<Rightarrow> p \<noteq> JSymbol)
          \<and> (case bs of Inl _ \<Rightarrow> False | Inr p \<Rightarrow> p \<noteq> JSymbol))"

definition with_methods ::
  "bool \<Rightarrow> (string \<times> slot) list \<Rightarrow> jsval option \<Rightarrow> method_outcome \<Rightarrow> method_outcome \<Rightarrow> jsval" where
  \<comment> \<open>An object whose conversions are the ordinary ones, from what its \<^verbatim>\<open>valueOf\<close> and
      its \<^verbatim>\<open>toString\<close> do, each the same at every call.\<close>
  "with_methods c ss p v t = Object c ss p (OrdinaryToPrimitive v t) (OrdinaryToPrimitive t v)"

definition plain_object :: "(string \<times> jsval) list \<Rightarrow> jsval" where
  \<comment> \<open>An object literal: data properties, and the prototype \<^verbatim>\<open>Object.prototype\<close>, which
      answers none of the reads (\<open>None\<close>) and whose \<^verbatim>\<open>valueOf\<close> returns the object itself
      and \<^verbatim>\<open>toString\<close> returns \<^verbatim>\<open>[object Object]\<close>.\<close>
  "plain_object ps =
     with_methods False (map (\<lambda>(k, v). (k, Data v)) ps) None
       ReturnsObject (ReturnsPrim (JString (units ''[object Object]'')))"

fun is_absent :: "jsval \<Rightarrow> string \<Rightarrow> bool" where
  \<comment> \<open>The property is unset: neither the object nor any object of its prototype
      chain has it.\<close>
  "is_absent (Object c ss p bn bs) name =
     (map_of ss name = None \<and> (case p of None \<Rightarrow> True | Some q \<Rightarrow> is_absent q name))"
| "is_absent (Prim _) name = True"

definition truncated :: "int \<Rightarrow> int \<Rightarrow> int" where
  \<comment> \<open>The integer part of \<open>m * 10 ^ e\<close> for \<open>m \<ge> 0\<close>.\<close>
  "truncated m e = (if 0 \<le> e then m * 10 ^ nat e else m div 10 ^ nat (- e))"

definition undefined_value :: jsval where
  "undefined_value = Prim JUndefined"

definition bool_value :: "bool \<Rightarrow> jsval" where
  "bool_value b = Prim (JBoolean b)"

section \<open>Auxiliary facts\<close>

text \<open>
  The two functions that recurse under a condition are unfolded where a proof asks for
  it, not by the simplifier on its own.
\<close>

declare digits_of_nat.simps [simp del]

declare strip_zeros.simps [simp del]

subsection \<open>The normalised level is an integer, a zero, an infinity or \<^verbatim>\<open>NaN\<close>\<close>

lemma round_integer_cases:
  "round_to_double_range (Fin v 0) = Fin v 0 \<or> round_to_double_range (Fin v 0) = Fin 0 0
   \<or> round_to_double_range (Fin v 0) = NegZero \<or> round_to_double_range (Fin v 0) = PosInf
   \<or> round_to_double_range (Fin v 0) = NegInf"
  by (simp add: round_to_double_range_def)

lemma signed_integer_cases:
  "signed b (round_to_double_range (Fin v 0)) \<in> {PosInf, NegInf, NegZero}
   \<or> (\<exists>k. signed b (round_to_double_range (Fin v 0)) = Fin k 0)"
  using round_integer_cases [of v] by (auto simp: signed_def split: if_splits)

lemma parseInt_string_cases:
  "parseInt_string s \<in> {NaN, PosInf, NegInf, NegZero} \<or> (\<exists>k. parseInt_string s = Fin k 0)"
proof -
  have "\<And>b v. signed b (round_to_double_range (Fin v 0)) \<in> {NaN, PosInf, NegInf, NegZero}
           \<or> (\<exists>k. signed b (round_to_double_range (Fin v 0)) = Fin k 0)"
    using signed_integer_cases by blast
  then show ?thesis
    unfolding parseInt_string_def Let_def by (simp only: split: if_split) blast
qed

lemma normalize_tiLevel_cases:
  assumes "normalize_tiLevel t = Inr n"
  shows "n \<in> {NaN, PosInf, NegInf, NegZero} \<or> (\<exists>k. n = Fin k 0)"
proof (cases "greater_than_number t (Fin 0 0)")
  case (Inl e)
  with assms show ?thesis by (simp add: normalize_tiLevel_def)
next
  case (Inr gt)
  show ?thesis
  proof (cases gt)
    case False
    with Inr assms show ?thesis by (auto simp: normalize_tiLevel_def)
  next
    case True
    with Inr assms have "parseInt t = Inr n" by (simp add: normalize_tiLevel_def)
    then obtain s where "n = parseInt_string s"
      by (auto simp: parseInt_def split: sum.splits)
    with parseInt_string_cases [of s] show ?thesis by auto
  qed
qed

lemma number_gt_int: "number_gt (Fin k 0) (Fin 0 0) = (0 < k)"
  by (simp add: number_gt_def dec_less_def)

lemma number_lt_int: "number_lt (Fin k 0) (Fin 4 0) = (k < 4)"
  by (simp add: number_lt_def dec_less_def)

lemma isolationLevel_clause_int:
  "isolationLevel_clause (Fin k 0) =
     (if k = 1 then Some ''isolation level serializable''
      else if k = 2 then Some ''isolation level repeatable read''
      else if k = 3 then Some ''isolation level read committed''
      else None)"
proof -
  consider "k \<le> 0" | "k = 1" | "k = 2" | "k = 3" | "4 \<le> k" by linarith
  then show ?thesis
    by cases
      (simp_all add: isolationLevel_clause_def number_gt_int number_lt_int concat_string_def
        array_get_def array_index_def values_array_def)
qed

lemma isolationLevel_clause_special:
  "n \<in> {NaN, PosInf, NegInf, NegZero} \<Longrightarrow> isolationLevel_clause n = None"
  by (auto simp: isolationLevel_clause_def number_gt_def number_lt_def dec_less_def)

lemma isolationLevel_clause_range:
  assumes "normalize_tiLevel t = Inr n"
  shows "isolationLevel_clause n \<in> set iso_options"
  using normalize_tiLevel_cases [OF assms]
  by (auto simp: isolationLevel_clause_int isolationLevel_clause_special iso_options_def
      split: if_splits)

lemma accessMode_clause_range: "accessMode_clause r \<in> set access_options"
  by (simp add: accessMode_clause_def access_options_def)

lemma deferrableMode_clause_range: "deferrableMode_clause d \<in> set deferrable_options"
  by (simp add: deferrableMode_clause_def deferrable_options_def)

lemma clause_triples_mem:
  "i \<in> set iso_options \<Longrightarrow> a \<in> set access_options \<Longrightarrow> d \<in> set deferrable_options
   \<Longrightarrow> (i, a, d) \<in> set clause_triples"
  by (auto simp: clause_triples_def)

subsection \<open>What the constructor returns\<close>

lemma TransactionMode_body_eq: "TransactionMode this a1 a2 a3 = TransactionMode_body a1 a2 a3"
  by (cases this) simp_all

lemma TransactionMode_body_Inr:
  assumes "TransactionMode_body a1 a2 a3 = Inr b" and "unpack a1 a2 a3 = Inr (t, r, d)"
  shows "\<exists>n. normalize_tiLevel t = Inr n
           \<and> b = assemble (isolationLevel_clause n) (accessMode_clause r) (deferrableMode_clause d)"
  using assms by (auto simp: TransactionMode_body_def split: sum.splits)

lemma TransactionMode_body_normalized:
  assumes "unpack a1 a2 a3 = Inr (t, r, d)" and "normalize_tiLevel t = Inr n"
  shows "TransactionMode_body a1 a2 a3
           = Inr (assemble (isolationLevel_clause n) (accessMode_clause r) (deferrableMode_clause d))"
  using assms by (simp add: TransactionMode_body_def)

lemma constructed_unpacked:
  assumes "TransactionMode this a1 a2 a3 = Inr b"
  shows "\<exists>t r d. unpack a1 a2 a3 = Inr (t, r, d)"
  using assms by (cases "unpack a1 a2 a3") (auto simp: TransactionMode_body_eq TransactionMode_body_def)

lemma constructed_triple:
  assumes "TransactionMode this a1 a2 a3 = Inr b" and "unpack a1 a2 a3 = Inr (t, r, d)"
  shows "\<exists>n. normalize_tiLevel t = Inr n
           \<and> b = assemble (isolationLevel_clause n) (accessMode_clause r) (deferrableMode_clause d)
           \<and> (isolationLevel_clause n, accessMode_clause r, deferrableMode_clause d) \<in> set clause_triples"
proof -
  from assms obtain n where n: "normalize_tiLevel t = Inr n"
    and b: "b = assemble (isolationLevel_clause n) (accessMode_clause r) (deferrableMode_clause d)"
    using TransactionMode_body_Inr [of a1 a2 a3 b t r d] by (auto simp: TransactionMode_body_eq)
  show ?thesis
    using n b clause_triples_mem [OF isolationLevel_clause_range [OF n]
        accessMode_clause_range deferrableMode_clause_range]
    by blast
qed

lemma begin_str_assemble:
  "begin_str (assemble i a d) = append_clause (append_clause (append_clause ''begin'' i) a) d"
  by (simp add: assemble_def Let_def)

subsection \<open>The thirty-six commands, evaluated\<close>

lemma commands_mem:
  "(i, a, d) \<in> set clause_triples \<Longrightarrow> ((i, a, d), begin_str (assemble i a d)) \<in> set commands"
  by (force simp: commands_def)

lemma commands_isolation:
  "list_all (\<lambda>((i, a, d), s).
      case i of
        None \<Rightarrow> \<not> sublist ''isolation level'' s
      | Some c \<Rightarrow> once_after_begin c s \<and> occurrences ''isolation level'' s = 1)
    commands"
  by code_simp

lemma commands_access:
  "list_all (\<lambda>((i, a, d), s).
      sublist ''read only'' s = (a = Some ''read only'')
      \<and> sublist ''read write'' s = (a = Some ''read write''))
    commands"
  by code_simp

lemma commands_deferrable:
  "list_all (\<lambda>((i, a, d), s).
      sublist ''not deferrable'' s = (d = Some ''not deferrable'')
      \<and> sublist ''deferrable'' s = (d \<noteq> None)
      \<and> suffix (spaced d) s)
    commands"
  by code_simp

lemma commands_format:
  "list_all (\<lambda>((i, a, d), s).
      s = ''begin'' @ spaced i @ spaced a @ spaced d
      \<and> \<not> sublist ''  '' s \<and> last s \<noteq> CHR '' '')
    commands"
  by code_simp

lemma commands_ascii:
  "list_all (\<lambda>((i, a, d), s). list_all (\<lambda>c. c \<in> set ''abcdefghijklmnopqrstuvwxyz '') s) commands"
  by code_simp

lemma commands_lookup:
  assumes "list_all P commands" and "(i, a, d) \<in> set clause_triples"
  shows "P ((i, a, d), begin_str (assemble i a d))"
  using assms commands_mem [of i a d] by (auto simp: list_all_iff)

lemma capBegin_assemble: "capBegin (assemble i a d) = toUpperCase (begin_str (assemble i a d))"
  by (simp add: assemble_def Let_def)

subsection \<open>The clauses and the values they come from\<close>

lemma accessMode_clause_iff:
  "(accessMode_clause r = Some ''read only'') = ToBoolean r"
  "(accessMode_clause r = Some ''read write'') = (\<not> ToBoolean r \<and> r \<noteq> Prim JUndefined)"
  "(accessMode_clause r = None) = (r = Prim JUndefined)"
  by (auto simp: accessMode_clause_def)

lemma deferrableMode_clause_iff:
  "(deferrableMode_clause d = Some ''deferrable'') = ToBoolean d"
  "(deferrableMode_clause d = Some ''not deferrable'') = (\<not> ToBoolean d \<and> d \<noteq> Prim JUndefined)"
  "(deferrableMode_clause d = None) = (d = Prim JUndefined)"
  by (auto simp: deferrableMode_clause_def)

lemma normalize_tiLevel_not_greater:
  "greater_than_number t (Fin 0 0) = Inr False \<Longrightarrow> normalize_tiLevel t = Inr (Fin 0 0)"
  by (simp add: normalize_tiLevel_def)

subsection \<open>When the constructor returns\<close>

lemma ToNumeric_total: "p \<noteq> JSymbol \<Longrightarrow> \<exists>x. ToNumeric p = Inr x"
  by (cases p) auto

lemma ToString_prim_total: "p \<noteq> JSymbol \<Longrightarrow> \<exists>s. ToString_prim p = Inr s"
  by (cases p) auto

lemma greater_than_number_total:
  assumes "ToPrimitive x HintNumber = Inr p" and "p \<noteq> JSymbol"
  shows "\<exists>g. greater_than_number x c = Inr g"
proof -
  from ToNumeric_total [OF assms(2)] obtain y where "ToNumeric p = Inr y" by blast
  with assms(1) show ?thesis
    by (cases y) (simp_all add: greater_than_number_def)
qed

lemma parseInt_total:
  assumes "ToPrimitive x HintString = Inr p" and "p \<noteq> JSymbol"
  shows "\<exists>n. parseInt x = Inr n"
proof -
  from ToString_prim_total [OF assms(2)] obtain s where "ToString_prim p = Inr s" by blast
  with assms(1) show ?thesis
    by (simp add: parseInt_def ToString_def)
qed

lemma convertible_ToPrimitive:
  assumes "convertible x"
  shows "\<exists>p. ToPrimitive x h = Inr p \<and> p \<noteq> JSymbol"
proof (cases x)
  case (Prim p)
  with assms show ?thesis by (simp add: convertible_def)
next
  case (Object c ss q bn bs)
  with assms show ?thesis
    by (cases h) (auto simp: convertible_def split: sum.splits)
qed

lemma normalize_tiLevel_total:
  assumes "convertible t"
  shows "\<exists>n. normalize_tiLevel t = Inr n"
proof -
  from convertible_ToPrimitive [OF assms] obtain p where
    p: "ToPrimitive t HintNumber = Inr p" "p \<noteq> JSymbol" by blast
  from convertible_ToPrimitive [OF assms] obtain q where
    q: "ToPrimitive t HintString = Inr q" "q \<noteq> JSymbol" by blast
  from greater_than_number_total [OF p] obtain g where
    g: "greater_than_number t (Fin 0 0) = Inr g" by blast
  from parseInt_total [OF q] obtain n where n: "parseInt t = Inr n" by blast
  show ?thesis
    using g n by (cases g) (simp_all add: normalize_tiLevel_def)
qed

lemma TransactionMode_body_Inl:
  "(TransactionMode_body a1 a2 a3 = Inl e)
     = (unpack a1 a2 a3 = Inl e
        \<or> (\<exists>t r d. unpack a1 a2 a3 = Inr (t, r, d) \<and> normalize_tiLevel t = Inl e))"
  by (auto simp: TransactionMode_body_def split: sum.splits)

subsection \<open>A record as first argument\<close>

lemma unpack_record:
  assumes "ToBoolean a1" and "typeof a1 = ''object''"
    and "get_prop a1 ''readOnly'' = Inr r" and "get_prop a1 ''deferrable'' = Inr d"
    and "get_prop a1 ''tiLevel'' = Inr t"
  shows "unpack a1 a2 a3 = Inr (t, r, d)"
  using assms by (simp add: unpack_def)

lemma unpack_record_independent:
  assumes "ToBoolean a1" and "typeof a1 = ''object''"
  shows "unpack a1 a2 a3 = unpack a1 b2 b3"
  using assms by (simp add: unpack_def)

lemma unpack_record_Inr:
  assumes "ToBoolean a1" and "typeof a1 = ''object''" and "unpack a1 a2 a3 = Inr (t, r, d)"
  shows "get_prop a1 ''readOnly'' = Inr r \<and> get_prop a1 ''deferrable'' = Inr d
       \<and> get_prop a1 ''tiLevel'' = Inr t"
  using assms by (auto simp: unpack_def split: sum.splits)

lemma get_prop_absent: "is_absent x name \<Longrightarrow> get_prop x name = Inr (Prim JUndefined)"
  by (induction x name rule: get_prop.induct) (auto split: option.splits)

subsection \<open>The frozen registry\<close>

lemma own_isolationLevel:
  "own isolationLevel =
     [(''none'', \<lparr>pvalue = int_value 0, writable = False, enumerable = True, configurable = False\<rparr>),
      (''serializable'', \<lparr>pvalue = int_value 1, writable = False, enumerable = True, configurable = False\<rparr>),
      (''repeatableRead'', \<lparr>pvalue = int_value 2, writable = False, enumerable = True, configurable = False\<rparr>),
      (''readCommitted'', \<lparr>pvalue = int_value 3, writable = False, enumerable = True, configurable = False\<rparr>)]"
  by (simp add: isolationLevel_def Object_freeze_def object_literal_def)

lemma extensible_isolationLevel: "\<not> extensible isolationLevel"
  by (simp add: isolationLevel_def Object_freeze_def object_literal_def)

lemma proto_isolationLevel: "proto isolationLevel = ObjectPrototype"
  by (simp add: isolationLevel_def Object_freeze_def object_literal_def)

lemma isolationLevel_member_frozen:
  "map_of (own isolationLevel) k = Some p \<Longrightarrow> \<not> writable p \<and> \<not> configurable p"
  by (auto simp: own_isolationLevel split: if_splits)

lemma isolationLevel_no_proto_member: "map_of (own isolationLevel) ''__proto__'' = None"
  by (simp add: own_isolationLevel)

lemma SetPrototypeOf_isolationLevel:
  "SetPrototypeOf_method v isolationLevel = (Done, isolationLevel)
   \<or> SetPrototypeOf_method v isolationLevel = (Refused, isolationLevel)"
  using extensible_isolationLevel by (simp add: SetPrototypeOf_method_def)

lemma proto_setter_isolationLevel:
  "proto_setter v isolationLevel = (Done, isolationLevel)
   \<or> proto_setter v isolationLevel = (Thrown, isolationLevel)"
proof (cases v)
  case None
  then show ?thesis by (simp add: proto_setter_def)
next
  case (Some p)
  with SetPrototypeOf_isolationLevel [of p] show ?thesis
    by (auto simp: proto_setter_def)
qed

lemma alter_isolationLevel:
  "snd (alter a isolationLevel) = isolationLevel \<and> fst (alter a isolationLevel) \<noteq> LeavesModel"
proof (cases a)
  case (Assign k v)
  show ?thesis
  proof (cases "map_of (own isolationLevel) k")
    case None
    then show ?thesis
      using Assign extensible_isolationLevel proto_isolationLevel
        proto_setter_isolationLevel [of "as_prototype v"]
      by (auto simp: Set_method_def)
  next
    case (Some p)
    then show ?thesis
      using Assign isolationLevel_member_frozen [of k p] by (simp add: Set_method_def)
  qed
next
  case (AssignProto p)
  then show ?thesis
    using isolationLevel_no_proto_member proto_isolationLevel
      proto_setter_isolationLevel [of "Some p"]
    by (auto simp: AssignProto_method_def)
next
  case (Delete k)
  then show ?thesis
    using isolationLevel_member_frozen [of k]
    by (auto simp: Delete_method_def split: option.splits)
next
  case (DefineProperty k d)
  then show ?thesis
    using isolationLevel_member_frozen [of k] extensible_isolationLevel
    by (auto simp: DefineOwnProperty_method_def split: option.splits)
next
  case PreventExtensions
  then show ?thesis
    using extensible_isolationLevel by simp
next
  case (SetPrototypeOf v)
  then show ?thesis
    using SetPrototypeOf_isolationLevel [of v] by auto
qed

lemma assign_isolationLevel_refused:
  "k \<noteq> ''__proto__'' \<Longrightarrow> alter (Assign k v) isolationLevel = (Refused, isolationLevel)"
  using isolationLevel_member_frozen [of k] extensible_isolationLevel proto_isolationLevel
  by (auto simp: Set_method_def split: option.splits prototype.splits)

lemma delete_member_refused:
  "list_all (\<lambda>k. alter (Delete k) isolationLevel = (Refused, isolationLevel))
     [''none'', ''serializable'', ''repeatableRead'', ''readCommitted'']"
  by (simp add: own_isolationLevel Delete_method_def)

lemma alter_all_isolationLevel:
  "foldl (\<lambda>obj a. snd (alter a obj)) isolationLevel as = isolationLevel"
  by (induction as) (simp_all add: alter_isolationLevel)

lemma registry_after_isolationLevel: "registry_after ws isolationLevel = isolationLevel"
  unfolding registry_after_def
  by (induction ws) (auto simp: alter_isolationLevel)

subsection \<open>Integers print and parse back\<close>

lemma is_digit_digit_code: "d < 10 \<Longrightarrow> is_digit 10 (48 + d)"
  by (simp add: is_digit_def digit_of_def)

lemma digits_of_nat_nonempty: "digits_of_nat n \<noteq> []"
  by (subst digits_of_nat.simps) simp

lemma digits_of_nat_digits: "list_all (is_digit 10) (digits_of_nat n)"
proof (induction n rule: digits_of_nat.induct)
  case (1 n)
  show ?case
  proof (cases "n < 10")
    case True
    then show ?thesis
      by (subst digits_of_nat.simps) (simp add: is_digit_def digit_of_def)
  next
    case False
    with 1 show ?thesis
      by (subst digits_of_nat.simps) (simp add: is_digit_digit_code)
  qed
qed

lemma digits_value_snoc:
  "digits_value R (ds @ [c]) = digits_value R ds * int R + (case digit_of c of None \<Rightarrow> 0 | Some d \<Rightarrow> int d)"
  by (simp add: digits_value_def)

lemma digits_value_digits_of_nat: "digits_value 10 (digits_of_nat n) = int n"
proof (induction n rule: digits_of_nat.induct)
  case (1 n)
  show ?case
  proof (cases "n < 10")
    case True
    then show ?thesis
      by (subst digits_of_nat.simps) (simp add: digits_value_def digit_of_def)
  next
    case False
    then have "digits_value 10 (digits_of_nat n)
                 = digits_value 10 (digits_of_nat (n div 10)) * 10 + int (n mod 10)"
      by (subst digits_of_nat.simps) (simp add: digits_value_snoc digit_of_def)
    with 1 False show ?thesis by (simp add: zmod_int zdiv_int)
  qed
qed

lemma digits_value_zeros:
  "digits_value 10 (ds @ replicate j 48) = digits_value 10 ds * 10 ^ j"
proof (induction j)
  case 0
  show ?case by simp
next
  case (Suc j)
  have "ds @ replicate (Suc j) 48 = (ds @ replicate j 48) @ [48]"
    by (simp add: replicate_append_same)
  then show ?case
    using Suc by (simp only: digits_value_snoc) (simp add: digit_of_def)
qed

lemma digits_of_nat_lower: "0 < n \<Longrightarrow> 10 ^ (length (digits_of_nat n) - 1) \<le> n"
proof (induction n rule: digits_of_nat.induct)
  case (1 n)
  show ?case
  proof (cases "n < 10")
    case True
    with 1(2) show ?thesis by (subst digits_of_nat.simps) simp
  next
    case False
    then have pos: "0 < n div 10" by simp
    have len: "length (digits_of_nat n) = Suc (length (digits_of_nat (n div 10)))"
      using False by (subst digits_of_nat.simps) simp
    have "10 ^ (length (digits_of_nat (n div 10)) - 1) \<le> n div 10"
      using 1(1) [OF False pos] .
    then have "10 * 10 ^ (length (digits_of_nat (n div 10)) - 1) \<le> n"
      by simp
    moreover have "length (digits_of_nat (n div 10)) \<noteq> 0"
      using digits_of_nat_nonempty by simp
    ultimately show ?thesis
      using len by (cases "length (digits_of_nat (n div 10))") simp_all
  qed
qed

lemma strip_zeros_spec:
  "strip_zeros m e = (s, e') \<Longrightarrow> 0 < m \<Longrightarrow> 0 < s \<and> e \<le> e' \<and> s * 10 ^ nat (e' - e) = m"
proof (induction m e arbitrary: s e' rule: strip_zeros.induct)
  case (1 m e)
  show ?case
  proof (cases "m \<noteq> 0 \<and> m mod 10 = 0")
    case True
    then have rec: "strip_zeros (m div 10) (e + 1) = (s, e')"
      using 1(2) by (subst (asm) strip_zeros.simps) simp
    have pos: "0 < m div 10" using True 1(3) by arith
    from 1(1) [OF True rec pos] have s: "0 < s" and le: "e + 1 \<le> e'"
      and eq: "s * 10 ^ nat (e' - (e + 1)) = m div 10"
      by simp_all
    have "nat (e' - e) = Suc (nat (e' - (e + 1)))" using le by simp
    then have "s * 10 ^ nat (e' - e) = 10 * (m div 10)"
      using eq by simp
    also have "\<dots> = m" using True by presburger
    finally show ?thesis using s le by simp
  next
    case False
    then have "strip_zeros m e = (m, e)"
      by (subst strip_zeros.simps) auto
    with 1(2,3) show ?thesis by simp
  qed
qed

subsection \<open>Numbers print as decimals that \<^verbatim>\<open>parseInt\<close> truncates\<close>

lemma digits_value_append:
  "digits_value R (xs @ ys) = digits_value R xs * int R ^ length ys + digits_value R ys"
proof (induction ys rule: rev_induct)
  case Nil
  show ?case by (simp add: digits_value_def)
next
  case (snoc c ys)
  have "digits_value R (xs @ ys @ [c]) = digits_value R ((xs @ ys) @ [c])" by simp
  also have "\<dots> = digits_value R (xs @ ys) * int R
                      + (case digit_of c of None \<Rightarrow> 0 | Some d \<Rightarrow> int d)"
    by (rule digits_value_snoc)
  finally show ?case
    using snoc by (simp add: digits_value_snoc algebra_simps)
qed

lemma digits_value_bounds:
  "list_all (is_digit 10) ds \<Longrightarrow> 0 \<le> digits_value 10 ds \<and> digits_value 10 ds < 10 ^ length ds"
proof (induction ds rule: rev_induct)
  case Nil
  show ?case by (simp add: digits_value_def)
next
  case (snoc c ds)
  then have ih: "0 \<le> digits_value 10 ds" "digits_value 10 ds < 10 ^ length ds"
    and c: "is_digit 10 c" by simp_all
  from c obtain d where d: "digit_of c = Some d" "d < 10"
    by (auto simp: is_digit_def split: option.splits)
  have v: "digits_value 10 (ds @ [c]) = digits_value 10 ds * 10 + int d"
    using d by (simp add: digits_value_snoc)
  have "digits_value 10 ds + 1 \<le> 10 ^ length ds" using ih(2) by simp
  then have "(digits_value 10 ds + 1) * 10 \<le> 10 ^ length ds * 10" by simp
  then show ?case using v ih(1) d(2) by (simp add: algebra_simps)
qed

lemma digits_of_nat_upper: "n < 10 ^ length (digits_of_nat n)"
proof -
  have "int n < 10 ^ length (digits_of_nat n)"
    using digits_value_bounds [OF digits_of_nat_digits [of n]]
    by (simp add: digits_value_digits_of_nat)
  then show ?thesis by (metis of_nat_less_iff of_nat_numeral of_nat_power)
qed

lemma digits_value_take:
  assumes "list_all (is_digit 10) ds" and "j \<le> length ds"
  shows "digits_value 10 (take (length ds - j) ds) = digits_value 10 ds div 10 ^ j"
proof -
  let ?i = "length ds - j"
  let ?a = "digits_value 10 (take ?i ds)"
  let ?b = "digits_value 10 (drop ?i ds)"
  have len: "length (drop ?i ds) = j" using assms(2) by simp
  have "list_all (is_digit 10) (drop ?i ds)"
    using assms(1) by (metis append_take_drop_id list_all_append)
  from digits_value_bounds [OF this] len
  have b: "0 \<le> ?b" "?b < 10 ^ j" by simp_all
  have "digits_value 10 ds = digits_value 10 (take ?i ds @ drop ?i ds)" by simp
  also have "\<dots> = ?a * 10 ^ j + ?b"
    using len by (simp only: digits_value_append) simp
  finally have "digits_value 10 ds div 10 ^ j = (?a * 10 ^ j + ?b) div 10 ^ j" by simp
  also have "\<dots> = ?a + ?b div 10 ^ j" by simp
  also have "?b div 10 ^ j = 0" using b by (simp add: div_pos_pos_trivial)
  finally show ?thesis by simp
qed

lemma big_bound: "(10::int) ^ 21 < (2 ^ 54 - 1) * 2 ^ 970"
  by simp

lemma round_small:
  assumes "0 \<le> v" and "v < 10 ^ 21"
  shows "round_to_double_range (Fin v 0) = Fin v 0"
proof (cases "v = 0")
  case True
  then show ?thesis by (simp add: round_to_double_range_def)
next
  case False
  with assms(1) have pos: "1 \<le> v" by simp
  have "(1::int) < 2 ^ 1075" by simp
  with pos have "1 < v * 2 ^ 1075"
    by (metis less_1_mult linorder_not_less mult.commute mult.right_neutral mult_le_cancel_left_pos not_le order_less_le_trans zero_less_one)
  then have under: "\<not> dec_le_pow2 \<bar>v\<bar> 0 1 (- 1075)"
    using pos by (simp add: dec_le_pow2_def)
  have "v < (2 ^ 54 - 1) * 2 ^ 970" using assms(2) big_bound by linarith
  then have over: "\<not> pow2_le_dec (2 ^ 54 - 1) 970 \<bar>v\<bar> 0"
    using pos by (simp add: pow2_le_dec_def)
  show ?thesis
    using False under over by (simp add: round_to_double_range_def)
qed

lemma parseInt_string_prefix:
  assumes "z \<noteq> []" and "list_all (is_digit 10) z" and "rest = [] \<or> hd rest = 46"
  shows "parseInt_string (z @ rest) = round_to_double_range (Fin (digits_value 10 z) 0)"
proof -
  let ?s = "z @ rest"
  obtain c cs where z: "z = c # cs" using assms(1) by (cases z) auto
  have c: "48 \<le> c \<and> c \<le> 57"
    using assms(2) z by (auto simp: is_digit_def digit_of_def split: if_splits)
  have ws: "dropWhile is_StrWhiteSpaceChar ?s = ?s"
    using c z by (auto simp: is_StrWhiteSpaceChar_def)
  have sign: "hd ?s \<noteq> 45 \<and> hd ?s \<noteq> 43" "?s \<noteq> []"
    using c z by auto
  have second: "cs @ rest = [] \<or> (hd (cs @ rest) \<noteq> 120 \<and> hd (cs @ rest) \<noteq> 88)"
  proof (cases cs)
    case Nil
    with assms(3) show ?thesis by auto
  next
    case (Cons c' cs')
    with assms(2) z have "48 \<le> c' \<and> c' \<le> 57"
      by (auto simp: is_digit_def digit_of_def split: if_splits)
    with Cons show ?thesis by auto
  qed
  have hex: "take 2 ?s \<noteq> units ''0x'' \<and> take 2 ?s \<noteq> units ''0X''"
    using second z by (cases "cs @ rest") (auto simp: units_def)
  have nd: "\<not> is_digit 10 46" by (simp add: is_digit_def digit_of_def)
  have "takeWhile (is_digit 10) rest = []"
    using assms(3) nd by (cases rest) auto
  then have tw: "takeWhile (is_digit 10) ?s = z"
    using assms(2) by (simp add: takeWhile_append2 list_all_iff)
  show ?thesis
    by (simp only: parseInt_string_def Let_def ws sign hex tw if_False if_True simp_thms)
       (simp add: assms(1) signed_def)
qed

lemma list_all_zeros: "list_all (is_digit 10) (replicate j 48)"
  by (simp add: list_all_iff is_digit_def digit_of_def)

lemma int_less_power10: "n < 10 ^ k \<Longrightarrow> int n < 10 ^ k"
  by (metis of_nat_less_iff of_nat_numeral of_nat_power)

lemma int_le_power10: "10 ^ k \<le> n \<Longrightarrow> 10 ^ k \<le> int n"
  by (metis of_nat_le_iff of_nat_numeral of_nat_power)

lemma truncated_stripped:
  assumes "s * 10 ^ nat (e' - e) = m" and "e \<le> e'"
  shows "truncated (int m) e = truncated (int s) e'"
proof -
  let ?j = "nat (e' - e)"
  have m: "int m = int s * 10 ^ ?j" using assms(1) [symmetric] by simp
  show ?thesis
  proof (cases "0 \<le> e")
    case True
    then have "nat e' = ?j + nat e" using assms(2) by simp
    then show ?thesis
      using True assms(2) m by (simp add: truncated_def power_add)
  next
    case neg: False
    show ?thesis
    proof (cases "0 \<le> e'")
      case True
      then have "?j = nat e' + nat (- e)" using neg by simp
      then have "int m = (int s * 10 ^ nat e') * 10 ^ nat (- e)"
        using m by (simp add: power_add)
      then show ?thesis
        using True neg by (simp add: truncated_def)
    next
      case False
      then have "nat (- e) = ?j + nat (- e')" using assms(2) by simp
      then have "int m div 10 ^ nat (- e) = (int s * 10 ^ ?j) div (10 ^ nat (- e') * 10 ^ ?j)"
        using m by (simp add: power_add mult.commute)
      also have "\<dots> = int s div 10 ^ nat (- e')"
        by simp
      finally show ?thesis
        using False neg by (simp add: truncated_def)
    qed
  qed
qed

lemma positive_toString_decimal:
  assumes "0 < m" and "e \<le> 21" and "int m < 10 ^ nat (21 - e)"
    and "e < - 6 \<longrightarrow> 10 ^ nat (- 6 - e) \<le> int m"
  shows "\<exists>z rest. positive_toString m e = z @ rest \<and> z \<noteq> [] \<and> list_all (is_digit 10) z
           \<and> (rest = [] \<or> hd rest = 46) \<and> digits_value 10 z = truncated (int m) e
           \<and> 0 \<le> truncated (int m) e \<and> truncated (int m) e < 10 ^ 21"
proof -
  obtain s e' where se: "strip_zeros m e = (s, e')" by (cases "strip_zeros m e") auto
  from strip_zeros_spec [OF se assms(1)]
  have s: "0 < s" and le: "e \<le> e'" and m: "s * 10 ^ nat (e' - e) = m" by simp_all
  let ?ds = "digits_of_nat s"
  let ?k = "length ?ds"
  let ?n = "e' + int ?k"
  have dg: "list_all (is_digit 10) ?ds" by (rule digits_of_nat_digits)
  have ne: "?ds \<noteq> []" by (rule digits_of_nat_nonempty)
  have k1: "1 \<le> ?k" using ne by (cases ?ds) auto
  have low: "10 ^ (?k - 1) \<le> s" by (rule digits_of_nat_lower [OF s])
  have up: "s < 10 ^ ?k" by (rule digits_of_nat_upper)
  have val: "digits_value 10 ?ds = int s" by (rule digits_value_digits_of_nat)
  have tr: "truncated (int m) e = truncated (int s) e'" by (rule truncated_stripped [OF m le])
  \<comment> \<open>the decimal point stands after at most 21 digits\<close>
  have "(10::nat) ^ (?k - 1 + nat (e' - e)) \<le> s * 10 ^ nat (e' - e)"
    using low by (simp add: power_add)
  with m have "(10::nat) ^ (?k - 1 + nat (e' - e)) \<le> m" by simp
  then have "(10::int) ^ (?k - 1 + nat (e' - e)) \<le> int m"
    by (rule int_le_power10)
  with assms(3) have "(10::int) ^ (?k - 1 + nat (e' - e)) < 10 ^ nat (21 - e)" by linarith
  then have "?k - 1 + nat (e' - e) < nat (21 - e)"
    by (rule power_less_imp_less_exp [rotated]) simp
  then have n21: "?n \<le> 21" using k1 le assms(2) by linarith
  \<comment> \<open>and after more than minus six\<close>
  have n6: "- 6 < ?n"
  proof (cases "e < - 6")
    case False
    then show ?thesis using le k1 by linarith
  next
    case True
    with assms(4) have "(10::int) ^ nat (- 6 - e) \<le> int m" by simp
    moreover have "s * 10 ^ nat (e' - e) < 10 ^ ?k * 10 ^ nat (e' - e)"
      using up by simp
    then have "m < 10 ^ (?k + nat (e' - e))"
      using m by (simp add: power_add)
    then have "int m < 10 ^ (?k + nat (e' - e))"
      by (rule int_less_power10)
    ultimately have "(10::int) ^ nat (- 6 - e) < 10 ^ (?k + nat (e' - e))" by linarith
    then have "nat (- 6 - e) < ?k + nat (e' - e)"
      by (rule power_less_imp_less_exp [rotated]) simp
    then show ?thesis using True le by linarith
  qed
  show ?thesis
  proof (cases "0 \<le> e'")
    case True
    then have kn: "int ?k \<le> ?n" by simp
    have str: "positive_toString m e = ?ds @ replicate (nat e') 48"
      using se kn n21 by (simp add: positive_toString_def Let_def)
    have t: "truncated (int s) e' = int s * 10 ^ nat e'"
      using True by (simp add: truncated_def)
    have "int s * 10 ^ nat e' < 10 ^ ?k * 10 ^ nat e'"
      using int_less_power10 [OF up] by simp
    also have "\<dots> = (10::int) ^ nat ?n" using True by (simp add: power_add nat_add_distrib)
    also have "\<dots> \<le> 10 ^ 21" using n21 by (intro power_increasing) simp_all
    finally have small: "int s * 10 ^ nat e' < 10 ^ 21" .
    have dz: "list_all (is_digit 10) (?ds @ replicate (nat e') 48)"
      using dg list_all_zeros by simp
    have "digits_value 10 (?ds @ replicate (nat e') 48) = int s * 10 ^ nat e'"
      using val by (simp add: digits_value_zeros)
    then show ?thesis
      using str ne dz tr t small
      by (intro exI [of _ "?ds @ replicate (nat e') 48"] exI [of _ "[]"]) simp
  next
    case neg: False
    let ?f = "nat (- e')"
    have t: "truncated (int s) e' = int s div 10 ^ ?f"
      using neg by (simp add: truncated_def)
    have tpos: "0 \<le> int s div 10 ^ ?f" by (simp add: pos_imp_zdiv_nonneg_iff)
    show ?thesis
    proof (cases "0 < ?n")
      case True
      then have fk: "?f \<le> ?k" and nk: "nat ?n = ?k - ?f" using neg by simp_all
      have notkn: "\<not> int ?k \<le> ?n" using neg by simp
      have str: "positive_toString m e = take (nat ?n) ?ds @ units ''.'' @ drop (nat ?n) ?ds"
        using se notkn True n21 by (simp add: positive_toString_def Let_def)
      have tz: "take (nat ?n) ?ds \<noteq> []" using True ne by simp
      have dz: "list_all (is_digit 10) (take (nat ?n) ?ds)"
        using dg by (metis append_take_drop_id list_all_append)
      have dv: "digits_value 10 (take (nat ?n) ?ds) = int s div 10 ^ ?f"
        using digits_value_take [OF dg fk] val nk by simp
      have "digits_value 10 (take (nat ?n) ?ds) < 10 ^ length (take (nat ?n) ?ds)"
        using digits_value_bounds [OF dz] by simp
      also have "length (take (nat ?n) ?ds) = nat ?n" using nk by simp
      also have "(10::int) ^ nat ?n \<le> 10 ^ 21" using n21 by (intro power_increasing) simp_all
      finally have tsmall: "int s div 10 ^ ?f < 10 ^ 21" using dv by simp
      show ?thesis
        using dv str tz dz tr t tsmall tpos
        by (intro exI [of _ "take (nat ?n) ?ds"] exI [of _ "units ''.'' @ drop (nat ?n) ?ds"])
           (simp add: units_def)
    next
      case False
      then have kf: "?k \<le> ?f" using neg by simp
      have notkn: "\<not> int ?k \<le> ?n" using neg by simp
      have str: "positive_toString m e = units ''0.'' @ replicate (nat (- ?n)) 48 @ ?ds"
        using se notkn False n6 by (simp add: positive_toString_def Let_def)
      have "int s < 10 ^ ?k"
        by (rule int_less_power10 [OF up])
      also have "(10::int) ^ ?k \<le> 10 ^ ?f" using kf by (intro power_increasing) simp_all
      finally have "int s div 10 ^ ?f = 0" by (simp add: div_pos_pos_trivial)
      then show ?thesis
        using str tr t
        by (intro exI [of _ "[48]"] exI [of _ "46 # replicate (nat (- ?n)) 48 @ ?ds"])
           (simp add: units_def is_digit_def digit_of_def digits_value_def)
    qed
  qed
qed

lemma number_lt_upper:
  assumes "0 < m"
  shows "number_lt (Fin m e) (Fin 1 21) = (e \<le> 21 \<and> m < 10 ^ nat (21 - e))"
proof (cases "e \<le> 21")
  case True
  then show ?thesis by (simp add: number_lt_def dec_less_def min_def)
next
  case False
  have "0 < m * 10 ^ nat (e - 21)" using assms by simp
  then have "\<not> m * 10 ^ nat (e - 21) < 1" by linarith
  then show ?thesis using False by (simp add: number_lt_def dec_less_def min_def)
qed

lemma number_lt_lower:
  assumes "0 < m"
  shows "number_lt (Fin m e) (Fin 1 (- 6)) = (e < - 6 \<and> m < 10 ^ nat (- 6 - e))"
proof (cases "e < - 6")
  case True
  then show ?thesis by (simp add: number_lt_def dec_less_def min_def)
next
  case False
  have "0 < m * 10 ^ nat (e + 6)" using assms by simp
  then have "\<not> m * 10 ^ nat (e + 6) < 1" by linarith
  then show ?thesis using False assms by (auto simp: number_lt_def dec_less_def min_def)
qed

lemma number_gt_zero: "number_gt (Fin m e) (Fin 0 0) = (0 < m)"
  by (simp add: number_gt_def dec_less_def zero_less_mult_iff)

lemma normalize_number_truncated_nat:
  assumes "0 < M" and "\<not> number_lt (Fin (int M) e) (Fin 1 (- 6))"
    and "number_lt (Fin (int M) e) (Fin 1 21)"
  shows "normalize_tiLevel (Prim (JNumber (Fin (int M) e))) = Inr (Fin (truncated (int M) e) 0)"
proof -
  have ipos: "0 < int M" using assms(1) by simp
  have up1: "e \<le> 21" and up2: "int M < 10 ^ nat (21 - e)"
    using assms(3) unfolding number_lt_upper [OF ipos] by blast+
  have lo: "e < - 6 \<longrightarrow> 10 ^ nat (- 6 - e) \<le> int M"
    using assms(2) unfolding number_lt_lower [OF ipos] by linarith
  from positive_toString_decimal [OF assms(1) up1 up2 lo] obtain z rest where
    str: "positive_toString M e = z @ rest" and z: "z \<noteq> []" "list_all (is_digit 10) z"
    and rest: "rest = [] \<or> hd rest = 46" and v: "digits_value 10 z = truncated (int M) e"
    and small: "0 \<le> truncated (int M) e" "truncated (int M) e < 10 ^ 21"
    by blast
  have "parseInt_string (z @ rest) = round_to_double_range (Fin (digits_value 10 z) 0)"
    by (rule parseInt_string_prefix [OF z rest])
  also have "\<dots> = Fin (truncated (int M) e) 0"
    unfolding v by (rule round_small [OF small])
  finally have p: "parseInt_string (positive_toString M e) = Fin (truncated (int M) e) 0"
    unfolding str .
  have g: "greater_than_number (Prim (JNumber (Fin (int M) e))) (Fin 0 0) = Inr True"
    using ipos by (simp add: greater_than_number_def number_gt_zero)
  have ts: "Number_toString (Fin (int M) e) = positive_toString M e"
    using assms(1) by simp
  have "parseInt (Prim (JNumber (Fin (int M) e))) = Inr (Fin (truncated (int M) e) 0)"
    by (simp add: parseInt_def ToString_def ts p del: Number_toString.simps)
  with g show ?thesis by (simp add: normalize_tiLevel_def)
qed

lemma normalize_number_truncated:
  assumes "0 < m" and "\<not> number_lt (Fin m e) (Fin 1 (- 6))" and "number_lt (Fin m e) (Fin 1 21)"
  shows "normalize_tiLevel (Prim (JNumber (Fin m e))) = Inr (Fin (truncated m e) 0)"
proof -
  have m: "int (nat m) = m" and pos: "0 < nat m" using assms(1) by simp_all
  show ?thesis
    using normalize_number_truncated_nat [OF pos, of e] assms(2,3) unfolding m by blast
qed

lemma normalize_number_nonpositive:
  "m \<le> 0 \<Longrightarrow> normalize_tiLevel (Prim (JNumber (Fin m e))) = Inr (Fin 0 0)"
  by (simp add: normalize_tiLevel_def greater_than_number_def number_gt_zero)

lemma normalize_tiLevel_integer:
  assumes "0 < k" and "k < 10 ^ 21"
  shows "normalize_tiLevel (int_value k) = Inr (Fin k 0)"
proof -
  have "number_lt (Fin k 0) (Fin 1 21)"
    using assms by (simp add: number_lt_upper)
  moreover have "\<not> number_lt (Fin k 0) (Fin 1 (- 6))"
    using assms by (simp add: number_lt_lower)
  ultimately show ?thesis
    using normalize_number_truncated [OF assms(1), of 0]
    by (simp add: int_value_def truncated_def)
qed

subsection \<open>Decimal strings\<close>

lemma trim_ws_id:
  assumes "s \<noteq> []" and "\<not> is_StrWhiteSpaceChar (hd s)" and "\<not> is_StrWhiteSpaceChar (last s)"
  shows "trim_ws s = s"
proof -
  have a: "dropWhile is_StrWhiteSpaceChar s = s"
    using assms(1,2) by (cases s) auto
  obtain x xs where r: "rev s = x # xs" using assms(1) by (cases "rev s") auto
  have "hd (rev s) = last s" using assms(1) by (simp add: hd_rev)
  with r have "x = last s" by simp
  with assms(3) have b: "dropWhile is_StrWhiteSpaceChar (rev s) = rev s"
    unfolding r by simp
  show ?thesis by (simp add: trim_ws_def a b)
qed

lemma digit_not_space: "is_digit 10 c \<Longrightarrow> \<not> is_StrWhiteSpaceChar c"
  by (auto simp: is_digit_def digit_of_def is_StrWhiteSpaceChar_def split: if_splits)

lemma digit_range: "is_digit 10 c \<Longrightarrow> 48 \<le> c \<and> c \<le> 57"
  by (auto simp: is_digit_def digit_of_def split: if_splits)

lemma StringToNumber_decimal:
  assumes "ip \<noteq> []" and "list_all (is_digit 10) ip" and "list_all (is_digit 10) fp"
    and "rest = [] \<and> fp = [] \<or> rest = 46 # fp"
  shows "StringToNumber (ip @ rest)
           = round_to_double_range (Fin (digits_value 10 (ip @ fp)) (- int (length fp)))"
proof -
  let ?s = "ip @ rest"
  obtain c cs where ip: "ip = c # cs" using assms(1) by (cases ip) auto
  have c: "48 \<le> c \<and> c \<le> 57" using assms(2) ip by (simp add: digit_range)
  have ne: "?s \<noteq> []" using assms(1) by simp
  have hd_s: "hd ?s = c" using ip by simp
  have last_s: "last ?s = 46 \<or> is_digit 10 (last ?s)"
  proof (cases "rest = []")
    case True
    then have "last ?s = last ip" by simp
    moreover have "last ip \<in> set ip" using assms(1) by simp
    ultimately show ?thesis using assms(2) by (auto simp: list_all_iff)
  next
    case False
    with assms(4) have r: "rest = 46 # fp" by auto
    show ?thesis
    proof (cases "fp = []")
      case True
      with r show ?thesis by simp
    next
      case nonempty: False
      then have "last ?s = last fp" using r by simp
      moreover have "last fp \<in> set fp" using nonempty by simp
      ultimately show ?thesis using assms(3) by (auto simp: list_all_iff)
    qed
  qed
  have "\<not> is_StrWhiteSpaceChar 46" by (simp add: is_StrWhiteSpaceChar_def)
  with last_s have lw: "\<not> is_StrWhiteSpaceChar (last ?s)" using digit_not_space by auto
  have hw: "\<not> is_StrWhiteSpaceChar (hd ?s)"
    using c hd_s by (auto simp: is_StrWhiteSpaceChar_def)
  have trim: "trim_ws ?s = ?s" by (rule trim_ws_id [OF ne hw lw])
  have second: "cs @ rest = [] \<or> (48 \<le> hd (cs @ rest) \<and> hd (cs @ rest) \<le> 57) \<or> hd (cs @ rest) = 46"
  proof (cases cs)
    case Nil
    with assms(4) show ?thesis by auto
  next
    case (Cons c' cs')
    with assms(2) ip have "48 \<le> c' \<and> c' \<le> 57" by (simp add: digit_range)
    with Cons show ?thesis by auto
  qed
  have prefixes: "take 2 ?s \<noteq> units ''0x''" "take 2 ?s \<noteq> units ''0X''"
    "take 2 ?s \<noteq> units ''0o''" "take 2 ?s \<noteq> units ''0O''"
    "take 2 ?s \<noteq> units ''0b''" "take 2 ?s \<noteq> units ''0B''"
    using second ip by (cases "cs @ rest"; auto simp: units_def)+
  have sign: "hd ?s \<noteq> 45" "hd ?s \<noteq> 43" using c hd_s by auto
  have inf: "?s \<noteq> units ''Infinity''"
  proof
    assume "?s = units ''Infinity''"
    then have "hd ?s = 73" by (simp add: units_def)
    with c hd_s show False by simp
  qed
  have nd: "\<not> is_digit 10 46" by (simp add: is_digit_def digit_of_def)
  have tw_rest: "takeWhile (is_digit 10) rest = []"
    using assms(4) nd by auto
  have tw: "takeWhile (is_digit 10) ?s = ip"
    using assms(2) tw_rest by (simp add: takeWhile_append2 list_all_iff)
  have dw_rest: "dropWhile (is_digit 10) rest = rest"
    using assms(4) nd by auto
  have dw: "dropWhile (is_digit 10) ?s = rest"
    using assms(2) dw_rest by (simp add: dropWhile_append2 list_all_iff)
  have twf: "takeWhile (is_digit 10) fp = fp" and dwf: "dropWhile (is_digit 10) fp = []"
    using assms(3) by (simp_all add: list_all_iff)
  have pud: "parse_unsigned_decimal ?s = Some (digits_value 10 (ip @ fp), - int (length fp))"
  proof (cases "rest = []")
    case True
    with assms(4) have fp: "fp = []" by auto
    show ?thesis
      unfolding parse_unsigned_decimal_def Let_def tw dw
      using assms(1) by (simp add: True fp parse_exponent_def)
  next
    case False
    with assms(4) have r: "rest = 46 # fp" by auto
    show ?thesis
      unfolding parse_unsigned_decimal_def Let_def tw dw
      using assms(1) by (simp add: r twf dwf parse_exponent_def)
  qed
  show ?thesis
    unfolding StringToNumber_def Let_def trim
    using assms(1) prefixes sign inf pud by (simp add: signed_def)
qed

lemma round_positive:
  assumes "10 ^ j \<le> M"
  shows "number_gt (round_to_double_range (Fin M (- int j))) (Fin 0 0)"
proof -
  have one: "(1::int) \<le> 10 ^ j" by simp
  with assms have pos: "0 < M" by linarith
  have "(1::int) < 2 ^ 1075" by simp
  then have "M * 1 < M * 2 ^ 1075" using pos by (intro mult_strict_left_mono) simp_all
  with assms have "10 ^ j < M * 2 ^ 1075" by simp
  then have under: "\<not> dec_le_pow2 \<bar>M\<bar> (- int j) 1 (- 1075)"
    using pos by (simp add: dec_le_pow2_def)
  show ?thesis
    using pos under by (simp add: round_to_double_range_def number_gt_def dec_less_def)
qed

lemma normalize_decimal_string:
  assumes "ip \<noteq> []" and "list_all (is_digit 10) ip" and "list_all (is_digit 10) fp"
    and "rest = [] \<and> fp = [] \<or> rest = 46 # fp"
  shows "normalize_tiLevel (Prim (JString (ip @ rest)))
           = Inr (round_to_double_range (Fin (digits_value 10 ip) 0))"
proof -
  let ?v = "digits_value 10 ip"
  have r: "rest = [] \<or> hd rest = 46" using assms(4) by auto
  have p: "parseInt (Prim (JString (ip @ rest))) = Inr (round_to_double_range (Fin ?v 0))"
    using parseInt_string_prefix [OF assms(1,2) r] by (simp add: parseInt_def ToString_def)
  have g: "greater_than_number (Prim (JString (ip @ rest))) (Fin 0 0)
             = Inr (number_gt (StringToNumber (ip @ rest)) (Fin 0 0))"
    by (simp add: greater_than_number_def)
  have v0: "0 \<le> ?v" using digits_value_bounds [OF assms(2)] by simp
  show ?thesis
  proof (cases "?v = 0")
    case True
    have "round_to_double_range (Fin 0 0) = Fin 0 0" by (simp add: round_to_double_range_def)
    with True p g show ?thesis by (simp add: normalize_tiLevel_def)
  next
    case False
    with v0 have v1: "1 \<le> ?v" by simp
    have "digits_value 10 (ip @ fp) = ?v * 10 ^ length fp + digits_value 10 fp"
      by (simp add: digits_value_append)
    moreover have "0 \<le> digits_value 10 fp" using digits_value_bounds [OF assms(3)] by simp
    moreover have "(10::int) ^ length fp \<le> ?v * 10 ^ length fp"
      using mult_right_mono [of 1 ?v "10 ^ length fp"] v1 by simp
    ultimately have "10 ^ length fp \<le> digits_value 10 (ip @ fp)" by linarith
    from round_positive [OF this]
    have "number_gt (StringToNumber (ip @ rest)) (Fin 0 0)"
      by (simp add: StringToNumber_decimal [OF assms])
    with p g show ?thesis by (simp add: normalize_tiLevel_def)
  qed
qed

lemma round_nonnegative_integer:
  assumes "0 \<le> v"
  shows "round_to_double_range (Fin v 0)
           = (if v < (2 ^ 54 - 1) * 2 ^ 970 then Fin v 0 else PosInf)"
proof (cases "v = 0")
  case True
  then show ?thesis by (simp add: round_to_double_range_def)
next
  case False
  with assms have pos: "1 \<le> v" by simp
  have "(1::int) < 2 ^ 1075" by simp
  with pos have "1 < v * 2 ^ 1075"
    by (metis less_1_mult linorder_not_less mult.commute mult.right_neutral mult_le_cancel_left_pos not_le order_less_le_trans zero_less_one)
  then have under: "\<not> dec_le_pow2 \<bar>v\<bar> 0 1 (- 1075)"
    using pos by (simp add: dec_le_pow2_def)
  have over: "pow2_le_dec (2 ^ 54 - 1) 970 \<bar>v\<bar> 0 = ((2 ^ 54 - 1) * 2 ^ 970 \<le> v)"
    using pos by (simp add: pow2_le_dec_def)
  show ?thesis
    using False pos under over by (auto simp: round_to_double_range_def)
qed

lemma normalize_decimal_digits:
  assumes "ip \<noteq> []" and "list_all (is_digit 10) ip" and "list_all (is_digit 10) fp"
    and "rest = [] \<or> rest = 46 # fp"
  shows "normalize_tiLevel (Prim (JString (ip @ rest)))
           = Inr (if digits_value 10 ip < (2 ^ 54 - 1) * 2 ^ 970
                  then Fin (digits_value 10 ip) 0 else PosInf)"
proof -
  have v: "0 \<le> digits_value 10 ip" using digits_value_bounds [OF assms(2)] by simp
  have e: "list_all (is_digit 10) []" by simp
  from assms(4) show ?thesis
  proof
    assume "rest = []"
    then have "rest = [] \<and> [] = [] \<or> rest = 46 # []" by simp
    from normalize_decimal_string [OF assms(1,2) e this] show ?thesis
      unfolding round_nonnegative_integer [OF v] .
  next
    assume "rest = 46 # fp"
    then have "rest = [] \<and> fp = [] \<or> rest = 46 # fp" by simp
    from normalize_decimal_string [OF assms(1,2,3) this] show ?thesis
      unfolding round_nonnegative_integer [OF v] .
  qed
qed

subsection \<open>Unfolding the constructor on given arguments\<close>

lemmas constructor_defs =
  TransactionMode_body_def unpack_def normalize_tiLevel_def greater_than_number_def
  parseInt_def ToString_def parseInt_string_def positive_toString_def
  isolationLevel_clause_def accessMode_clause_def deferrableMode_clause_def
  assemble_def append_clause_def truthy_local_def concat_string_def
  array_get_def array_index_def values_array_def
  number_gt_def number_lt_def dec_less_def
  toUpperCase_def toUpperCase_char_def char_of_def bit_0
  plain_object_def int_value_def bool_value_def undefined_value_def units_def
  is_digit_def digit_of_def digits_value_def is_StrWhiteSpaceChar_def
  StringToNumber_def trim_ws_def parse_unsigned_decimal_def parse_exponent_def
  round_to_double_range_def begin_fn_def Let_def digits_of_nat.simps strip_zeros.simps
  exponent_part_def signed_def with_methods_def dec_le_pow2_def pow2_le_dec_def

section \<open>The properties\<close>

text \<open>
  C8. Constructed from the single record \<^verbatim>\<open>{tiLevel: 3, readOnly: false, deferrable: false}\<close>,
  with \<^verbatim>\<open>new\<close> or by a plain call, the builder's lower-case string is
  \<^verbatim>\<open>begin isolation level read committed read write not deferrable\<close>. Constructed with
  no arguments, its lower-case string is \<^verbatim>\<open>begin\<close> and its upper-case string is
  \<^verbatim>\<open>BEGIN\<close>, and these are what the query returns for a false and for a true flag.
\<close>

theorem scenario_record_and_no_arguments:
  "TransactionMode this
     (plain_object [(''tiLevel'', int_value 3), (''readOnly'', bool_value False),
                    (''deferrable'', bool_value False)])
     undefined_value undefined_value
   = Inr \<lparr>begin_str = ''begin isolation level read committed read write not deferrable'',
          capBegin = ''BEGIN ISOLATION LEVEL READ COMMITTED READ WRITE NOT DEFERRABLE''\<rparr>
   \<and> TransactionMode this undefined_value undefined_value undefined_value
     = Inr \<lparr>begin_str = ''begin'', capBegin = ''BEGIN''\<rparr>
   \<and> begin_fn \<lparr>begin_str = ''begin'', capBegin = ''BEGIN''\<rparr> (bool_value False)
     = (''begin'', \<lparr>begin_str = ''begin'', capBegin = ''BEGIN''\<rparr>)
   \<and> begin_fn \<lparr>begin_str = ''begin'', capBegin = ''BEGIN''\<rparr> (bool_value True)
     = (''BEGIN'', \<lparr>begin_str = ''begin'', capBegin = ''BEGIN''\<rparr>)"
  unfolding TransactionMode_body_eq by (simp add: constructor_defs)

text \<open>
  C10. For every three arguments, calling \<^verbatim>\<open>TransactionMode\<close> as a plain function
  returns what \<^verbatim>\<open>new TransactionMode\<close> returns on the same arguments: the same builder
  (or the same exception), and so the same lower-case and upper-case strings from the
  query.
\<close>

theorem plain_call_same_as_new:
  "TransactionMode OtherThis tiLevel readOnly deferrable
     = TransactionMode NewInstance tiLevel readOnly deferrable
   \<and> map_sum id (\<lambda>b. (fst (begin_fn b (bool_value False)), fst (begin_fn b (bool_value True))))
       (TransactionMode OtherThis tiLevel readOnly deferrable)
     = map_sum id (\<lambda>b. (fst (begin_fn b (bool_value False)), fst (begin_fn b (bool_value True))))
         (TransactionMode NewInstance tiLevel readOnly deferrable)"
  by simp

text \<open>
  C5. For every builder the constructor returns: the query with a true flag returns the
  query with a false flag in upper case; both strings were fixed at construction
  (\<open>capBegin\<close> is \<open>begin\<close> in upper case, and \<open>begin\<close> holds only lower-case ASCII letters
  and spaces, on which the upper case of the model is the language's); a call returns
  one of the two strings by the truthiness of its flag, leaves the builder as it was,
  and a second call with the same flag returns the same string.
\<close>

theorem query_case_law_and_stability:
  assumes "TransactionMode this a1 a2 a3 = Inr b"
  shows "fst (begin_fn b (bool_value True)) = toUpperCase (fst (begin_fn b (bool_value False)))
       \<and> capBegin b = toUpperCase (begin_str b)
       \<and> list_all (\<lambda>c. c \<in> set ''abcdefghijklmnopqrstuvwxyz '') (begin_str b)
       \<and> fst (begin_fn b cap) = (if ToBoolean cap then capBegin b else begin_str b)
       \<and> snd (begin_fn b cap) = b
       \<and> fst (begin_fn (snd (begin_fn b cap)) cap) = fst (begin_fn b cap)"
proof -
  from constructed_unpacked [OF assms] obtain t r d where
    u: "unpack a1 a2 a3 = Inr (t, r, d)" by blast
  from constructed_triple [OF assms u] obtain n where
    b: "b = assemble (isolationLevel_clause n) (accessMode_clause r) (deferrableMode_clause d)"
    and m: "(isolationLevel_clause n, accessMode_clause r, deferrableMode_clause d) \<in> set clause_triples"
    by blast
  have ascii: "list_all (\<lambda>c. c \<in> set ''abcdefghijklmnopqrstuvwxyz '') (begin_str b)"
    using commands_lookup [OF commands_ascii m] b by simp
  have cap: "capBegin b = toUpperCase (begin_str b)"
    using b capBegin_assemble by simp
  show ?thesis
    using ascii cap by (simp add: begin_fn_def bool_value_def)
qed

theorem query_case_law_and_stability_witness:
  "TransactionMode NewInstance (int_value 2) (bool_value True) undefined_value
     = Inr \<lparr>begin_str = ''begin isolation level repeatable read read only'',
            capBegin = ''BEGIN ISOLATION LEVEL REPEATABLE READ READ ONLY''\<rparr>
   \<and> fst (begin_fn \<lparr>begin_str = ''begin isolation level repeatable read read only'',
                     capBegin = ''BEGIN ISOLATION LEVEL REPEATABLE READ READ ONLY''\<rparr> (bool_value True))
     = toUpperCase ''begin isolation level repeatable read read only''"
proof -
  have c: "TransactionMode NewInstance (int_value 2) (bool_value True) undefined_value
     = Inr \<lparr>begin_str = ''begin isolation level repeatable read read only'',
            capBegin = ''BEGIN ISOLATION LEVEL REPEATABLE READ READ ONLY''\<rparr>"
    by (simp add: constructor_defs)
  show ?thesis
    using c query_case_law_and_stability [OF c, of undefined_value]
    by (simp add: begin_fn_def bool_value_def)
qed

text \<open>
  C4. For every input on which the constructor returns: the lower-case string is
  \<^verbatim>\<open>begin\<close>, then the isolation clause, then the access-mode clause, then the deferrable
  clause, where a present clause contributes one space and the clause and an absent
  one contributes nothing; each clause is one of the grammar's; the string has no two
  spaces in a row and does not end with a space.
\<close>

theorem assembly_order_and_spacing:
  assumes "TransactionMode this a1 a2 a3 = Inr b" and "unpack a1 a2 a3 = Inr (t, r, d)"
  shows "\<exists>n. normalize_tiLevel t = Inr n
           \<and> begin_str b = ''begin'' @ spaced (isolationLevel_clause n)
                              @ spaced (accessMode_clause r) @ spaced (deferrableMode_clause d)
           \<and> isolationLevel_clause n \<in> set iso_options
           \<and> accessMode_clause r \<in> set access_options
           \<and> deferrableMode_clause d \<in> set deferrable_options
           \<and> \<not> sublist ''  '' (begin_str b)
           \<and> last (begin_str b) \<noteq> CHR '' ''"
proof -
  from constructed_triple [OF assms] obtain n where
    n: "normalize_tiLevel t = Inr n"
    and b: "b = assemble (isolationLevel_clause n) (accessMode_clause r) (deferrableMode_clause d)"
    and m: "(isolationLevel_clause n, accessMode_clause r, deferrableMode_clause d) \<in> set clause_triples"
    by blast
  let ?s = "begin_str (assemble (isolationLevel_clause n) (accessMode_clause r)
                (deferrableMode_clause d))"
  have "?s = ''begin'' @ spaced (isolationLevel_clause n)
                @ spaced (accessMode_clause r) @ spaced (deferrableMode_clause d)
        \<and> \<not> sublist ''  '' ?s \<and> last ?s \<noteq> CHR '' ''"
    using commands_lookup [OF commands_format m, unfolded prod.case] .
  then show ?thesis
    unfolding b
    using n isolationLevel_clause_range [OF n] accessMode_clause_range deferrableMode_clause_range
    by blast
qed

theorem assembly_order_and_spacing_witness:
  "TransactionMode NewInstance (int_value 2) (bool_value True) undefined_value
     = Inr \<lparr>begin_str = ''begin isolation level repeatable read read only'',
            capBegin = ''BEGIN ISOLATION LEVEL REPEATABLE READ READ ONLY''\<rparr>
   \<and> unpack (int_value 2) (bool_value True) undefined_value
     = Inr (int_value 2, bool_value True, undefined_value)
   \<and> \<not> sublist ''  '' ''begin isolation level repeatable read read only''
   \<and> (\<exists>n. normalize_tiLevel (int_value 2) = Inr n
         \<and> ''begin isolation level repeatable read read only''
             = ''begin'' @ spaced (isolationLevel_clause n)
                @ spaced (accessMode_clause (bool_value True))
                @ spaced (deferrableMode_clause undefined_value))"
proof -
  have c: "TransactionMode NewInstance (int_value 2) (bool_value True) undefined_value
     = Inr \<lparr>begin_str = ''begin isolation level repeatable read read only'',
            capBegin = ''BEGIN ISOLATION LEVEL REPEATABLE READ READ ONLY''\<rparr>"
    by (simp add: constructor_defs)
  have u: "unpack (int_value 2) (bool_value True) undefined_value
     = Inr (int_value 2, bool_value True, undefined_value)"
    by (simp add: unpack_def int_value_def)
  show ?thesis
    using c u assembly_order_and_spacing [OF c u] by auto
qed

text \<open>
  C1, as the claim states it, fails: the number \<^verbatim>\<open>1e21\<close> is greater than zero and not
  below four, yet \<^verbatim>\<open>parseInt\<close> reads its text \<^verbatim>\<open>1e+21\<close> and returns 1, and the command
  carries \<^verbatim>\<open>isolation level serializable\<close>.
\<close>

theorem isolation_level_exponent_counterexample:
  "TransactionMode NewInstance (Prim (JNumber (Fin 1 21))) undefined_value undefined_value
     = Inr \<lparr>begin_str = ''begin isolation level serializable'',
            capBegin = ''BEGIN ISOLATION LEVEL SERIALIZABLE''\<rparr>
   \<and> number_gt (Fin 1 21) (Fin 0 0)
   \<and> \<not> number_lt (Fin 1 21) (Fin 4 0)
   \<and> Number_toString (Fin 1 21) = units ''1e+21''
   \<and> sublist ''isolation level'' ''begin isolation level serializable''"
  by (simp add: constructor_defs sublist_Cons_right)

text \<open>
  C1, amended. Let \<open>n\<close> be the level as line 67 normalises it,
  \<^verbatim>\<open>(tiLevel > 0) ? parseInt(tiLevel) : 0\<close>; it is an integer, the negative zero, an
  infinity or \<^verbatim>\<open>NaN\<close>. On every input on which the constructor returns: if \<open>n\<close> is 1,
  2 or 3, the command starts with \<^verbatim>\<open>begin\<close>, a space and \<^verbatim>\<open>isolation level\<close> with the
  mapped fragment, and holds that clause, and the words \<^verbatim>\<open>isolation level\<close>, exactly
  once; for every other \<open>n\<close> the command does not contain \<^verbatim>\<open>isolation level\<close>. A level
  for which \<^verbatim>\<open>tiLevel > 0\<close> is false (unset, a string that is no number) normalises to 0
  and the constructor returns, with no clause and no exception. A number \<open>x\<close> with
  \<open>10 ^ -6 \<le> x < 10 ^ 21\<close> normalises to its integer part (2.5 to 2), a number \<open>x \<le> 0\<close>
  to 0; an integer \<open>k\<close> with \<open>0 < k < 10 ^ 21\<close> normalises to itself. A string of
  decimal digits, with or without a point and further digits after them, normalises
  to the integer its digits before the point name (\<^verbatim>\<open>2.7\<close> to 2), or to an infinity
  when that integer is too large for a double.
\<close>

theorem isolation_clause_by_normalized_level:
  assumes "unpack a1 a2 a3 = Inr (t, r, d)"
  shows "(TransactionMode this a1 a2 a3 = Inr b \<longrightarrow>
           (\<exists>n. normalize_tiLevel t = Inr n
              \<and> (n \<in> {NaN, PosInf, NegInf, NegZero} \<or> (\<exists>k. n = Fin k 0))
              \<and> (n = Fin 1 0 \<longrightarrow>
                   once_after_begin ''isolation level serializable'' (begin_str b)
                   \<and> occurrences ''isolation level'' (begin_str b) = 1)
              \<and> (n = Fin 2 0 \<longrightarrow>
                   once_after_begin ''isolation level repeatable read'' (begin_str b)
                   \<and> occurrences ''isolation level'' (begin_str b) = 1)
              \<and> (n = Fin 3 0 \<longrightarrow>
                   once_after_begin ''isolation level read committed'' (begin_str b)
                   \<and> occurrences ''isolation level'' (begin_str b) = 1)
              \<and> (n \<noteq> Fin 1 0 \<and> n \<noteq> Fin 2 0 \<and> n \<noteq> Fin 3 0 \<longrightarrow>
                   \<not> sublist ''isolation level'' (begin_str b))))
       \<and> (greater_than_number t (Fin 0 0) = Inr False \<longrightarrow>
            normalize_tiLevel t = Inr (Fin 0 0)
            \<and> (\<exists>b'. TransactionMode this a1 a2 a3 = Inr b'
                  \<and> \<not> sublist ''isolation level'' (begin_str b')))
       \<and> (\<forall>m e. t = Prim (JNumber (Fin m e)) \<and> 0 < m
               \<and> \<not> number_lt (Fin m e) (Fin 1 (- 6)) \<and> number_lt (Fin m e) (Fin 1 21) \<longrightarrow>
             normalize_tiLevel t = Inr (Fin (truncated m e) 0))
       \<and> (\<forall>m e. t = Prim (JNumber (Fin m e)) \<and> m \<le> 0 \<longrightarrow> normalize_tiLevel t = Inr (Fin 0 0))
       \<and> (\<forall>k. t = int_value k \<and> 0 < k \<and> k < 10 ^ 21 \<longrightarrow> normalize_tiLevel t = Inr (Fin k 0))
       \<and> (\<forall>ip. t = Prim (JString ip) \<and> ip \<noteq> [] \<and> list_all (is_digit 10) ip \<longrightarrow>
             normalize_tiLevel t
               = Inr (if digits_value 10 ip < (2 ^ 54 - 1) * 2 ^ 970
                      then Fin (digits_value 10 ip) 0 else PosInf))
       \<and> (\<forall>ip fp. t = Prim (JString (ip @ units ''.'' @ fp)) \<and> ip \<noteq> []
               \<and> list_all (is_digit 10) ip \<and> list_all (is_digit 10) fp \<longrightarrow>
             normalize_tiLevel t
               = Inr (if digits_value 10 ip < (2 ^ 54 - 1) * 2 ^ 970
                      then Fin (digits_value 10 ip) 0 else PosInf))"
proof (intro conjI impI)
  assume c: "TransactionMode this a1 a2 a3 = Inr b"
  from constructed_triple [OF c assms] obtain n where
    n: "normalize_tiLevel t = Inr n"
    and b: "b = assemble (isolationLevel_clause n) (accessMode_clause r) (deferrableMode_clause d)"
    and m: "(isolationLevel_clause n, accessMode_clause r, deferrableMode_clause d) \<in> set clause_triples"
    by blast
  let ?s = "begin_str (assemble (isolationLevel_clause n) (accessMode_clause r)
              (deferrableMode_clause d))"
  have ev: "case isolationLevel_clause n of
              None \<Rightarrow> \<not> sublist ''isolation level'' ?s
            | Some c \<Rightarrow> once_after_begin c ?s \<and> occurrences ''isolation level'' ?s = 1"
    using commands_lookup [OF commands_isolation m, unfolded prod.case] .
  have shape: "n \<in> {NaN, PosInf, NegInf, NegZero} \<or> (\<exists>k. n = Fin k 0)"
    by (rule normalize_tiLevel_cases [OF n])
  have one: "n = Fin 1 0 \<Longrightarrow> once_after_begin ''isolation level serializable'' ?s
                \<and> occurrences ''isolation level'' ?s = 1"
    using ev by (simp add: isolationLevel_clause_int)
  have two: "n = Fin 2 0 \<Longrightarrow> once_after_begin ''isolation level repeatable read'' ?s
                \<and> occurrences ''isolation level'' ?s = 1"
    using ev by (simp add: isolationLevel_clause_int)
  have three: "n = Fin 3 0 \<Longrightarrow> once_after_begin ''isolation level read committed'' ?s
                \<and> occurrences ''isolation level'' ?s = 1"
    using ev by (simp add: isolationLevel_clause_int)
  have other: "n \<noteq> Fin 1 0 \<and> n \<noteq> Fin 2 0 \<and> n \<noteq> Fin 3 0 \<Longrightarrow> \<not> sublist ''isolation level'' ?s"
  proof -
    assume distinct: "n \<noteq> Fin 1 0 \<and> n \<noteq> Fin 2 0 \<and> n \<noteq> Fin 3 0"
    from shape have "isolationLevel_clause n = None"
    proof
      assume "n \<in> {NaN, PosInf, NegInf, NegZero}"
      then show ?thesis by (rule isolationLevel_clause_special)
    next
      assume "\<exists>k. n = Fin k 0"
      with distinct show ?thesis by (auto simp: isolationLevel_clause_int split: if_splits)
    qed
    with ev show ?thesis by simp
  qed
  show "\<exists>n. normalize_tiLevel t = Inr n
              \<and> (n \<in> {NaN, PosInf, NegInf, NegZero} \<or> (\<exists>k. n = Fin k 0))
              \<and> (n = Fin 1 0 \<longrightarrow>
                   once_after_begin ''isolation level serializable'' (begin_str b)
                   \<and> occurrences ''isolation level'' (begin_str b) = 1)
              \<and> (n = Fin 2 0 \<longrightarrow>
                   once_after_begin ''isolation level repeatable read'' (begin_str b)
                   \<and> occurrences ''isolation level'' (begin_str b) = 1)
              \<and> (n = Fin 3 0 \<longrightarrow>
                   once_after_begin ''isolation level read committed'' (begin_str b)
                   \<and> occurrences ''isolation level'' (begin_str b) = 1)
              \<and> (n \<noteq> Fin 1 0 \<and> n \<noteq> Fin 2 0 \<and> n \<noteq> Fin 3 0 \<longrightarrow>
                   \<not> sublist ''isolation level'' (begin_str b))"
    unfolding b using n shape one two three other by blast
next
  assume g: "greater_than_number t (Fin 0 0) = Inr False"
  show "normalize_tiLevel t = Inr (Fin 0 0)"
    by (rule normalize_tiLevel_not_greater [OF g])
next
  assume g: "greater_than_number t (Fin 0 0) = Inr False"
  have n: "normalize_tiLevel t = Inr (Fin 0 0)"
    by (rule normalize_tiLevel_not_greater [OF g])
  let ?b = "assemble (isolationLevel_clause (Fin 0 0)) (accessMode_clause r)
              (deferrableMode_clause d)"
  have c: "TransactionMode this a1 a2 a3 = Inr ?b"
    using TransactionMode_body_normalized [OF assms n] by (simp add: TransactionMode_body_eq)
  have m: "(isolationLevel_clause (Fin 0 0), accessMode_clause r, deferrableMode_clause d)
             \<in> set clause_triples"
    using clause_triples_mem [OF isolationLevel_clause_range [OF n]
        accessMode_clause_range deferrableMode_clause_range] .
  have "\<not> sublist ''isolation level'' (begin_str ?b)"
    using commands_lookup [OF commands_isolation m, unfolded prod.case]
    by (simp add: isolationLevel_clause_int)
  with c show "\<exists>b'. TransactionMode this a1 a2 a3 = Inr b'
                  \<and> \<not> sublist ''isolation level'' (begin_str b')"
    by blast
next
  show "\<forall>m e. t = Prim (JNumber (Fin m e)) \<and> 0 < m
               \<and> \<not> number_lt (Fin m e) (Fin 1 (- 6)) \<and> number_lt (Fin m e) (Fin 1 21) \<longrightarrow>
             normalize_tiLevel t = Inr (Fin (truncated m e) 0)"
    using normalize_number_truncated by blast
next
  show "\<forall>m e. t = Prim (JNumber (Fin m e)) \<and> m \<le> 0 \<longrightarrow> normalize_tiLevel t = Inr (Fin 0 0)"
    using normalize_number_nonpositive by blast
next
  show "\<forall>k. t = int_value k \<and> 0 < k \<and> k < 10 ^ 21 \<longrightarrow> normalize_tiLevel t = Inr (Fin k 0)"
    using normalize_tiLevel_integer by blast
next
  show "\<forall>ip. t = Prim (JString ip) \<and> ip \<noteq> [] \<and> list_all (is_digit 10) ip \<longrightarrow>
             normalize_tiLevel t
               = Inr (if digits_value 10 ip < (2 ^ 54 - 1) * 2 ^ 970
                      then Fin (digits_value 10 ip) 0 else PosInf)"
  proof (intro allI impI)
    fix ip
    assume h: "t = Prim (JString ip) \<and> ip \<noteq> [] \<and> list_all (is_digit 10) ip"
    have e: "list_all (is_digit 10) []" by simp
    have "normalize_tiLevel (Prim (JString (ip @ [])))
            = Inr (if digits_value 10 ip < (2 ^ 54 - 1) * 2 ^ 970
                   then Fin (digits_value 10 ip) 0 else PosInf)"
      using h by (intro normalize_decimal_digits [OF _ _ e]) simp_all
    with h show "normalize_tiLevel t
               = Inr (if digits_value 10 ip < (2 ^ 54 - 1) * 2 ^ 970
                      then Fin (digits_value 10 ip) 0 else PosInf)"
      by simp
  qed
next
  show "\<forall>ip fp. t = Prim (JString (ip @ units ''.'' @ fp)) \<and> ip \<noteq> []
               \<and> list_all (is_digit 10) ip \<and> list_all (is_digit 10) fp \<longrightarrow>
             normalize_tiLevel t
               = Inr (if digits_value 10 ip < (2 ^ 54 - 1) * 2 ^ 970
                      then Fin (digits_value 10 ip) 0 else PosInf)"
  proof (intro allI impI)
    fix ip fp
    assume h: "t = Prim (JString (ip @ units ''.'' @ fp)) \<and> ip \<noteq> []
               \<and> list_all (is_digit 10) ip \<and> list_all (is_digit 10) fp"
    have dot: "units ''.'' @ fp = 46 # fp" by (simp add: units_def)
    have "normalize_tiLevel (Prim (JString (ip @ units ''.'' @ fp)))
            = Inr (if digits_value 10 ip < (2 ^ 54 - 1) * 2 ^ 970
                   then Fin (digits_value 10 ip) 0 else PosInf)"
      using h by (intro normalize_decimal_digits [of ip fp]) (simp_all add: dot)
    with h show "normalize_tiLevel t
               = Inr (if digits_value 10 ip < (2 ^ 54 - 1) * 2 ^ 970
                      then Fin (digits_value 10 ip) 0 else PosInf)"
      by simp
  qed
qed

theorem isolation_clause_by_normalized_level_witness:
  "unpack (int_value 2) (bool_value True) undefined_value
     = Inr (int_value 2, bool_value True, undefined_value)
   \<and> TransactionMode NewInstance (int_value 2) (bool_value True) undefined_value
     = Inr \<lparr>begin_str = ''begin isolation level repeatable read read only'',
            capBegin = ''BEGIN ISOLATION LEVEL REPEATABLE READ READ ONLY''\<rparr>
   \<and> normalize_tiLevel (int_value 2) = Inr (Fin 2 0)
   \<and> once_after_begin ''isolation level repeatable read''
        ''begin isolation level repeatable read read only''
   \<and> occurrences ''isolation level'' ''begin isolation level repeatable read read only'' = 1
   \<and> greater_than_number (Prim (JString (units ''abc''))) (Fin 0 0) = Inr False
   \<and> (\<exists>b. TransactionMode NewInstance (Prim (JString (units ''abc''))) undefined_value
              undefined_value = Inr b
          \<and> \<not> sublist ''isolation level'' (begin_str b))
   \<and> normalize_tiLevel (int_value 999) = Inr (Fin 999 0)
   \<and> normalize_tiLevel (int_value (- 5)) = Inr (Fin 0 0)
   \<and> normalize_tiLevel (Prim (JNumber (Fin 25 (- 1)))) = Inr (Fin 2 0)
   \<and> normalize_tiLevel (Prim (JString (units ''2.7''))) = Inr (Fin 2 0)
   \<and> normalize_tiLevel (Prim (JString (units ''3''))) = Inr (Fin 3 0)"
proof -
  let ?b = "\<lparr>begin_str = ''begin isolation level repeatable read read only'',
            capBegin = ''BEGIN ISOLATION LEVEL REPEATABLE READ READ ONLY''\<rparr>"
  have u: "unpack (int_value 2) (bool_value True) undefined_value
     = Inr (int_value 2, bool_value True, undefined_value)"
    by (simp add: unpack_def int_value_def)
  have c: "TransactionMode NewInstance (int_value 2) (bool_value True) undefined_value = Inr ?b"
    by (simp add: constructor_defs)
  have n: "normalize_tiLevel (int_value 2) = Inr (Fin 2 0)"
    by (simp add: constructor_defs)
  have u2: "unpack (Prim (JString (units ''abc''))) undefined_value undefined_value
     = Inr (Prim (JString (units ''abc'')), undefined_value, undefined_value)"
    by (simp add: unpack_def)
  have g: "greater_than_number (Prim (JString (units ''abc''))) (Fin 0 0) = Inr False"
    by (simp add: constructor_defs)
  have u3: "unpack (int_value 999) undefined_value undefined_value
     = Inr (int_value 999, undefined_value, undefined_value)"
    by (simp add: unpack_def int_value_def)
  have u4: "unpack (int_value (- 5)) undefined_value undefined_value
     = Inr (int_value (- 5), undefined_value, undefined_value)"
    by (simp add: unpack_def int_value_def)
  have u5: "unpack (Prim (JNumber (Fin 25 (- 1)))) undefined_value undefined_value
     = Inr (Prim (JNumber (Fin 25 (- 1))), undefined_value, undefined_value)"
    by (simp add: unpack_def)
  have u6: "unpack (Prim (JString (units ''2'' @ units ''.'' @ units ''7''))) undefined_value
              undefined_value
     = Inr (Prim (JString (units ''2'' @ units ''.'' @ units ''7'')), undefined_value,
            undefined_value)"
    by (simp add: unpack_def units_def)
  have u7: "unpack (Prim (JString (units ''3''))) undefined_value undefined_value
     = Inr (Prim (JString (units ''3'')), undefined_value, undefined_value)"
    by (simp add: unpack_def units_def)
  note at_two = isolation_clause_by_normalized_level [OF u, of NewInstance ?b]
  from at_two [THEN conjunct1, THEN mp, OF c] obtain m where
    m: "normalize_tiLevel (int_value 2) = Inr m"
    and two: "m = Fin 2 0 \<longrightarrow>
                once_after_begin ''isolation level repeatable read'' (begin_str ?b)
                \<and> occurrences ''isolation level'' (begin_str ?b) = 1"
    by blast
  from m n have "m = Fin 2 0" by simp
  with two have first: "once_after_begin ''isolation level repeatable read''
        ''begin isolation level repeatable read read only''
      \<and> occurrences ''isolation level'' ''begin isolation level repeatable read read only'' = 1"
    by simp
  note at_abc = isolation_clause_by_normalized_level [OF u2, of NewInstance]
  have second: "\<exists>b. TransactionMode NewInstance (Prim (JString (units ''abc''))) undefined_value
              undefined_value = Inr b
          \<and> \<not> sublist ''isolation level'' (begin_str b)"
    using at_abc [THEN conjunct2, THEN conjunct1, THEN mp, OF g] by (rule conjunct2)
  note at_999 = isolation_clause_by_normalized_level [OF u3, of NewInstance]
  have third: "normalize_tiLevel (int_value 999) = Inr (Fin 999 0)"
    by (rule at_999 [THEN conjunct2, THEN conjunct2, THEN conjunct2, THEN conjunct2,
          THEN conjunct1, rule_format]) simp
  note at_minus = isolation_clause_by_normalized_level [OF u4, of NewInstance]
  have fourth: "normalize_tiLevel (int_value (- 5)) = Inr (Fin 0 0)"
    by (rule at_minus [THEN conjunct2, THEN conjunct2, THEN conjunct2, THEN conjunct1,
          rule_format, of "- 5" 0]) (simp add: int_value_def)
  note at_half = isolation_clause_by_normalized_level [OF u5, of NewInstance]
  have "normalize_tiLevel (Prim (JNumber (Fin 25 (- 1)))) = Inr (Fin (truncated 25 (- 1)) 0)"
    by (rule at_half [THEN conjunct2, THEN conjunct2, THEN conjunct1, rule_format])
       (simp add: number_lt_def dec_less_def)
  then have fifth: "normalize_tiLevel (Prim (JNumber (Fin 25 (- 1)))) = Inr (Fin 2 0)"
    by (simp add: truncated_def)
  note at_point = isolation_clause_by_normalized_level [OF u6, of NewInstance]
  have "normalize_tiLevel (Prim (JString (units ''2'' @ units ''.'' @ units ''7'')))
               = Inr (if digits_value 10 (units ''2'') < (2 ^ 54 - 1) * 2 ^ 970
                      then Fin (digits_value 10 (units ''2'')) 0 else PosInf)"
    by (rule at_point [THEN conjunct2, THEN conjunct2, THEN conjunct2, THEN conjunct2,
          THEN conjunct2, THEN conjunct2, rule_format, of "units ''2''" "units ''7''"])
       (simp add: units_def is_digit_def digit_of_def)
  then have sixth: "normalize_tiLevel (Prim (JString (units ''2.7''))) = Inr (Fin 2 0)"
    by (simp add: units_def digits_value_def digit_of_def)
  note at_digits = isolation_clause_by_normalized_level [OF u7, of NewInstance]
  have "normalize_tiLevel (Prim (JString (units ''3'')))
               = Inr (if digits_value 10 (units ''3'') < (2 ^ 54 - 1) * 2 ^ 970
                      then Fin (digits_value 10 (units ''3'')) 0 else PosInf)"
    by (rule at_digits [THEN conjunct2, THEN conjunct2, THEN conjunct2, THEN conjunct2,
          THEN conjunct2, THEN conjunct1, rule_format, of "units ''3''"])
       (simp add: units_def is_digit_def digit_of_def)
  then have seventh: "normalize_tiLevel (Prim (JString (units ''3''))) = Inr (Fin 3 0)"
    by (simp add: units_def digits_value_def digit_of_def)
  show ?thesis
    using u c n g first second third fourth fifth sixth seventh by blast
qed

text \<open>
  C2, as the claim states it, fails: \<^verbatim>\<open>readOnly = null\<close> is not \<^verbatim>\<open>false\<close> and gives
  \<^verbatim>\<open>read write\<close>; \<^verbatim>\<open>readOnly = 1\<close> is not \<^verbatim>\<open>true\<close> and gives \<^verbatim>\<open>read only\<close>.
\<close>

theorem access_mode_strict_counterexample:
  "TransactionMode NewInstance undefined_value (Prim JNull) undefined_value
     = Inr \<lparr>begin_str = ''begin read write'', capBegin = ''BEGIN READ WRITE''\<rparr>
   \<and> Prim JNull \<noteq> bool_value False
   \<and> TransactionMode NewInstance undefined_value (int_value 1) undefined_value
     = Inr \<lparr>begin_str = ''begin read only'', capBegin = ''BEGIN READ ONLY''\<rparr>
   \<and> int_value 1 \<noteq> bool_value True"
  by (simp add: constructor_defs)

text \<open>
  C2, amended. For every builder the constructor returns, with \<open>r\<close> the value of
  \<^verbatim>\<open>readOnly\<close> after a record has been unpacked: the command contains \<^verbatim>\<open>read only\<close>
  exactly when \<open>r\<close> is truthy (\<^verbatim>\<open>true\<close> is), \<^verbatim>\<open>read write\<close> exactly when \<open>r\<close> is falsy
  and not \<^verbatim>\<open>undefined\<close> (\<^verbatim>\<open>false\<close> is, and so are \<^verbatim>\<open>null\<close>, 0, \<^verbatim>\<open>NaN\<close> and the empty
  string), and neither exactly when \<open>r\<close> is \<^verbatim>\<open>undefined\<close>.
\<close>

theorem access_mode_by_truthiness:
  assumes "TransactionMode this a1 a2 a3 = Inr b" and "unpack a1 a2 a3 = Inr (t, r, d)"
  shows "(sublist ''read only'' (begin_str b) \<longleftrightarrow> ToBoolean r)
       \<and> (sublist ''read write'' (begin_str b) \<longleftrightarrow> \<not> ToBoolean r \<and> r \<noteq> Prim JUndefined)
       \<and> (\<not> sublist ''read only'' (begin_str b) \<and> \<not> sublist ''read write'' (begin_str b)
            \<longleftrightarrow> r = Prim JUndefined)"
proof -
  from constructed_triple [OF assms] obtain n where
    b: "b = assemble (isolationLevel_clause n) (accessMode_clause r) (deferrableMode_clause d)"
    and m: "(isolationLevel_clause n, accessMode_clause r, deferrableMode_clause d) \<in> set clause_triples"
    by blast
  let ?s = "begin_str (assemble (isolationLevel_clause n) (accessMode_clause r)
              (deferrableMode_clause d))"
  have ev: "sublist ''read only'' ?s = (accessMode_clause r = Some ''read only'')
          \<and> sublist ''read write'' ?s = (accessMode_clause r = Some ''read write'')"
    using commands_lookup [OF commands_access m, unfolded prod.case] .
  show ?thesis
    unfolding b using ev accessMode_clause_iff [of r] by auto
qed

theorem access_mode_by_truthiness_witness:
  "TransactionMode NewInstance undefined_value (Prim JNull) undefined_value
     = Inr \<lparr>begin_str = ''begin read write'', capBegin = ''BEGIN READ WRITE''\<rparr>
   \<and> unpack undefined_value (Prim JNull) undefined_value
     = Inr (undefined_value, Prim JNull, undefined_value)
   \<and> sublist ''read write'' ''begin read write''
   \<and> \<not> sublist ''read only'' ''begin read write''
   \<and> \<not> ToBoolean (Prim JNull)"
proof -
  have c: "TransactionMode NewInstance undefined_value (Prim JNull) undefined_value
     = Inr \<lparr>begin_str = ''begin read write'', capBegin = ''BEGIN READ WRITE''\<rparr>"
    by (simp add: constructor_defs)
  have u: "unpack undefined_value (Prim JNull) undefined_value
     = Inr (undefined_value, Prim JNull, undefined_value)"
    by (simp add: unpack_def undefined_value_def)
  show ?thesis
    using c u access_mode_by_truthiness [OF c u] by simp
qed

text \<open>
  C3, as the claim states it, fails: \<^verbatim>\<open>deferrable = null\<close> is not \<^verbatim>\<open>false\<close> and gives
  \<^verbatim>\<open>not deferrable\<close>; \<^verbatim>\<open>deferrable = 1\<close> is not \<^verbatim>\<open>true\<close> and gives \<^verbatim>\<open>deferrable\<close>.
\<close>

theorem deferrable_mode_strict_counterexample:
  "TransactionMode NewInstance undefined_value undefined_value (Prim JNull)
     = Inr \<lparr>begin_str = ''begin not deferrable'', capBegin = ''BEGIN NOT DEFERRABLE''\<rparr>
   \<and> Prim JNull \<noteq> bool_value False
   \<and> TransactionMode NewInstance undefined_value undefined_value (int_value 1)
     = Inr \<lparr>begin_str = ''begin deferrable'', capBegin = ''BEGIN DEFERRABLE''\<rparr>
   \<and> int_value 1 \<noteq> bool_value True"
  by (simp add: constructor_defs)

text \<open>
  C3, amended. For every builder the constructor returns, with \<open>d\<close> the value of
  \<^verbatim>\<open>deferrable\<close> after a record has been unpacked: the command contains \<^verbatim>\<open>deferrable\<close>
  but not \<^verbatim>\<open>not deferrable\<close> exactly when \<open>d\<close> is truthy (\<^verbatim>\<open>true\<close> is), it contains
  \<^verbatim>\<open>not deferrable\<close> exactly when \<open>d\<close> is falsy and not \<^verbatim>\<open>undefined\<close> (\<^verbatim>\<open>false\<close> is),
  and it does not contain \<^verbatim>\<open>deferrable\<close> exactly when \<open>d\<close> is \<^verbatim>\<open>undefined\<close>; a present
  clause ends the command.
\<close>

theorem deferrable_mode_by_truthiness:
  assumes "TransactionMode this a1 a2 a3 = Inr b" and "unpack a1 a2 a3 = Inr (t, r, d)"
  shows "(sublist ''deferrable'' (begin_str b) \<and> \<not> sublist ''not deferrable'' (begin_str b)
            \<longleftrightarrow> ToBoolean d)
       \<and> (sublist ''not deferrable'' (begin_str b) \<longleftrightarrow> \<not> ToBoolean d \<and> d \<noteq> Prim JUndefined)
       \<and> (\<not> sublist ''deferrable'' (begin_str b) \<longleftrightarrow> d = Prim JUndefined)
       \<and> suffix (spaced (deferrableMode_clause d)) (begin_str b)"
proof -
  from constructed_triple [OF assms] obtain n where
    b: "b = assemble (isolationLevel_clause n) (accessMode_clause r) (deferrableMode_clause d)"
    and m: "(isolationLevel_clause n, accessMode_clause r, deferrableMode_clause d) \<in> set clause_triples"
    by blast
  let ?s = "begin_str (assemble (isolationLevel_clause n) (accessMode_clause r)
              (deferrableMode_clause d))"
  have ev: "sublist ''not deferrable'' ?s = (deferrableMode_clause d = Some ''not deferrable'')
          \<and> sublist ''deferrable'' ?s = (deferrableMode_clause d \<noteq> None)
          \<and> suffix (spaced (deferrableMode_clause d)) ?s"
    using commands_lookup [OF commands_deferrable m, unfolded prod.case] .
  have "deferrableMode_clause d \<in> set deferrable_options"
    by (rule deferrableMode_clause_range)
  then show ?thesis
    unfolding b using ev deferrableMode_clause_iff [of d]
    by (auto simp: deferrable_options_def)
qed

theorem deferrable_mode_by_truthiness_witness:
  "TransactionMode NewInstance undefined_value undefined_value (bool_value True)
     = Inr \<lparr>begin_str = ''begin deferrable'', capBegin = ''BEGIN DEFERRABLE''\<rparr>
   \<and> unpack undefined_value undefined_value (bool_value True)
     = Inr (undefined_value, undefined_value, bool_value True)
   \<and> sublist ''deferrable'' ''begin deferrable''
   \<and> \<not> sublist ''not deferrable'' ''begin deferrable''
   \<and> ToBoolean (bool_value True)"
proof -
  have c: "TransactionMode NewInstance undefined_value undefined_value (bool_value True)
     = Inr \<lparr>begin_str = ''begin deferrable'', capBegin = ''BEGIN DEFERRABLE''\<rparr>"
    by (simp add: constructor_defs)
  have u: "unpack undefined_value undefined_value (bool_value True)
     = Inr (undefined_value, undefined_value, bool_value True)"
    by (simp add: unpack_def undefined_value_def)
  show ?thesis
    using c u deferrable_mode_by_truthiness [OF c u] by (simp add: bool_value_def)
qed

text \<open>
  C6, as the claim states it, fails: a symbol as \<^verbatim>\<open>tiLevel\<close> makes the comparison
  \<^verbatim>\<open>tiLevel > 0\<close> throw a \<^verbatim>\<open>TypeError\<close>; so does a record whose \<^verbatim>\<open>tiLevel\<close> is an
  object with neither \<^verbatim>\<open>valueOf\<close> nor \<^verbatim>\<open>toString\<close>, such as \<^verbatim>\<open>Object.create(null)\<close>; and
  a record whose \<^verbatim>\<open>readOnly\<close> is an accessor that throws makes line 60 throw, although
  its \<^verbatim>\<open>tiLevel\<close> is 1.
\<close>

theorem never_throws_counterexample:
  "TransactionMode NewInstance (Prim JSymbol) undefined_value undefined_value = Inl TypeError
   \<and> TransactionMode NewInstance
       (plain_object [(''tiLevel'', with_methods False [] None NotCallable NotCallable)])
       undefined_value undefined_value = Inl TypeError
   \<and> TransactionMode NewInstance
       (with_methods False [(''tiLevel'', Data (int_value 1)), (''readOnly'', GetterThrows)] None
          ReturnsObject (ReturnsPrim (JString (units ''[object Object]''))))
       undefined_value undefined_value = Inl UserException"
  by (simp add: constructor_defs)

text \<open>
  C6, amended. Called with \<^verbatim>\<open>new\<close> or as a plain function, the constructor throws
  exactly when one of the three property reads of lines 60 to 62 throws (the first argument is a record and a getter or a proxy trap
  for \<^verbatim>\<open>readOnly\<close>, \<^verbatim>\<open>deferrable\<close> or \<^verbatim>\<open>tiLevel\<close>, read in this order, throws), or the
  normalisation of line 67 throws, and then with that exception. A first argument
  that is no record is not read from. When the reads return and the value \<open>t\<close> of
  \<^verbatim>\<open>tiLevel\<close> after them is a primitive value other than a symbol, or an object that
  converts to one under both hints, then for all values of \<^verbatim>\<open>readOnly\<close> and
  \<^verbatim>\<open>deferrable\<close> the constructor returns a builder, and the query returns one of its two
  strings for every flag.
\<close>

theorem construction_total_on_convertible_levels:
  "(unpack a1 a2 a3 = Inr (t, r, d) \<and> convertible t \<longrightarrow>
      (\<exists>b. TransactionMode this a1 a2 a3 = Inr b
         \<and> (\<forall>cap. begin_fn b cap = (if ToBoolean cap then capBegin b else begin_str b, b))))
   \<and> (TransactionMode this a1 a2 a3 = Inl e \<longleftrightarrow>
        unpack a1 a2 a3 = Inl e
        \<or> (\<exists>t r d. unpack a1 a2 a3 = Inr (t, r, d) \<and> normalize_tiLevel t = Inl e))
   \<and> (unpack a1 a2 a3 = Inl e \<longleftrightarrow>
        ToBoolean a1 \<and> typeof a1 = ''object''
        \<and> (get_prop a1 ''readOnly'' = Inl e
           \<or> (\<exists>r. get_prop a1 ''readOnly'' = Inr r)
             \<and> (get_prop a1 ''deferrable'' = Inl e
                \<or> (\<exists>d. get_prop a1 ''deferrable'' = Inr d) \<and> get_prop a1 ''tiLevel'' = Inl e)))
   \<and> (\<not> (ToBoolean a1 \<and> typeof a1 = ''object'') \<longrightarrow> unpack a1 a2 a3 = Inr (a1, a2, a3))"
proof (intro conjI impI)
  assume h: "unpack a1 a2 a3 = Inr (t, r, d) \<and> convertible t"
  then have u: "unpack a1 a2 a3 = Inr (t, r, d)" and v: "convertible t" by simp_all
  from normalize_tiLevel_total [OF v] obtain n where n: "normalize_tiLevel t = Inr n"
    by blast
  show "\<exists>b. TransactionMode this a1 a2 a3 = Inr b
          \<and> (\<forall>cap. begin_fn b cap = (if ToBoolean cap then capBegin b else begin_str b, b))"
    using TransactionMode_body_normalized [OF u n]
    by (simp add: TransactionMode_body_eq begin_fn_def)
next
  show "TransactionMode this a1 a2 a3 = Inl e \<longleftrightarrow>
        unpack a1 a2 a3 = Inl e
        \<or> (\<exists>t r d. unpack a1 a2 a3 = Inr (t, r, d) \<and> normalize_tiLevel t = Inl e)"
    unfolding TransactionMode_body_eq by (rule TransactionMode_body_Inl)
next
  show "unpack a1 a2 a3 = Inl e \<longleftrightarrow>
        ToBoolean a1 \<and> typeof a1 = ''object''
        \<and> (get_prop a1 ''readOnly'' = Inl e
           \<or> (\<exists>r. get_prop a1 ''readOnly'' = Inr r)
             \<and> (get_prop a1 ''deferrable'' = Inl e
                \<or> (\<exists>d. get_prop a1 ''deferrable'' = Inr d) \<and> get_prop a1 ''tiLevel'' = Inl e))"
    by (auto simp: unpack_def split: sum.splits)
next
  assume "\<not> (ToBoolean a1 \<and> typeof a1 = ''object'')"
  then show "unpack a1 a2 a3 = Inr (a1, a2, a3)" by (auto simp: unpack_def)
qed

theorem construction_total_on_convertible_levels_witness:
  "unpack (Prim (JString (units ''2.7''))) undefined_value undefined_value
     = Inr (Prim (JString (units ''2.7'')), undefined_value, undefined_value)
   \<and> convertible (Prim (JString (units ''2.7'')))
   \<and> (\<exists>b. TransactionMode OtherThis (Prim (JString (units ''2.7''))) undefined_value undefined_value
            = Inr b)
   \<and> unpack (Prim JSymbol) undefined_value undefined_value
     = Inr (Prim JSymbol, undefined_value, undefined_value)
   \<and> normalize_tiLevel (Prim JSymbol) = Inl TypeError
   \<and> TransactionMode OtherThis (Prim JSymbol) undefined_value undefined_value = Inl TypeError
   \<and> get_prop (Object False [(''readOnly'', GetterThrows)] None (Inl TypeError) (Inl TypeError))
       ''readOnly'' = Inl UserException
   \<and> TransactionMode OtherThis
       (Object False [(''readOnly'', GetterThrows)] None (Inl TypeError) (Inl TypeError))
       undefined_value undefined_value = Inl UserException"
proof -
  let ?o = "Object False [(''readOnly'', GetterThrows)] None (Inl TypeError) (Inl TypeError)"
  have u: "unpack (Prim (JString (units ''2.7''))) undefined_value undefined_value
     = Inr (Prim (JString (units ''2.7'')), undefined_value, undefined_value)"
    by (simp add: unpack_def)
  have v: "convertible (Prim (JString (units ''2.7'')))"
    by (simp add: convertible_def)
  have u': "unpack (Prim JSymbol) undefined_value undefined_value
     = Inr (Prim JSymbol, undefined_value, undefined_value)"
    by (simp add: unpack_def)
  have n: "normalize_tiLevel (Prim JSymbol) = Inl TypeError"
    by (simp add: constructor_defs)
  have s: "\<not> (ToBoolean (Prim JSymbol) \<and> typeof (Prim JSymbol) = ''object'')"
    by simp
  have o: "ToBoolean ?o \<and> typeof ?o = ''object'' \<and> get_prop ?o ''readOnly'' = Inl UserException"
    by simp
  note at_string = construction_total_on_convertible_levels
    [of "Prim (JString (units ''2.7''))" undefined_value undefined_value
        "Prim (JString (units ''2.7''))" undefined_value undefined_value OtherThis]
  note at_symbol = construction_total_on_convertible_levels
    [of "Prim JSymbol" undefined_value undefined_value _ _ _ OtherThis TypeError]
  note at_getter = construction_total_on_convertible_levels
    [of ?o undefined_value undefined_value _ _ _ OtherThis UserException]
  have first: "\<exists>b. TransactionMode OtherThis (Prim (JString (units ''2.7''))) undefined_value
                     undefined_value = Inr b"
    using u v at_string by blast
  have second: "TransactionMode OtherThis (Prim JSymbol) undefined_value undefined_value
                  = Inl TypeError"
    using u' n at_symbol by blast
  have "unpack ?o undefined_value undefined_value = Inl UserException"
    using o at_getter by blast
  then have third: "TransactionMode OtherThis ?o undefined_value undefined_value = Inl UserException"
    using at_getter by blast
  show ?thesis
    using u v u' n o first second third by blast
qed

text \<open>
  C7. When the first argument is a structured value (truthy and of type \<^verbatim>\<open>object\<close>: a
  record, an array, a wrapper object), all three parameters are replaced by its
  properties \<^verbatim>\<open>tiLevel\<close>, \<^verbatim>\<open>readOnly\<close> and \<^verbatim>\<open>deferrable\<close>, read as the language reads a
  property (own or inherited, data or accessor): the result does not depend on the
  second and third arguments; when the three reads return, it is the command
  assembled from the three values read; a property that is unset (on the record and
  on every prototype of it) reads as \<^verbatim>\<open>undefined\<close>; and a record whose \<^verbatim>\<open>readOnly\<close>
  (whose \<^verbatim>\<open>deferrable\<close>) reads as \<^verbatim>\<open>undefined\<close> gives no access-mode clause (no
  deferrable clause), whatever was passed by position.
\<close>

theorem record_overrides_positional:
  assumes "ToBoolean a1" and "typeof a1 = ''object''"
  shows "unpack a1 a2 a3 = unpack a1 b2 b3
       \<and> TransactionMode this a1 a2 a3 = TransactionMode this a1 b2 b3
       \<and> (get_prop a1 ''tiLevel'' = Inr t \<and> get_prop a1 ''readOnly'' = Inr r
            \<and> get_prop a1 ''deferrable'' = Inr d \<longrightarrow>
          unpack a1 a2 a3 = Inr (t, r, d)
          \<and> TransactionMode this a1 a2 a3
              = (case normalize_tiLevel t of
                   Inl e \<Rightarrow> Inl e
                 | Inr n \<Rightarrow>
                     Inr (assemble (isolationLevel_clause n) (accessMode_clause r)
                            (deferrableMode_clause d))))
       \<and> (TransactionMode this a1 a2 a3 = Inr b \<longrightarrow>
            (\<exists>t r d. get_prop a1 ''tiLevel'' = Inr t \<and> get_prop a1 ''readOnly'' = Inr r
               \<and> get_prop a1 ''deferrable'' = Inr d))
       \<and> (is_absent a1 ''readOnly'' \<longrightarrow> get_prop a1 ''readOnly'' = Inr (Prim JUndefined))
       \<and> (is_absent a1 ''deferrable'' \<longrightarrow> get_prop a1 ''deferrable'' = Inr (Prim JUndefined))
       \<and> (get_prop a1 ''readOnly'' = Inr (Prim JUndefined)
            \<and> TransactionMode this a1 a2 a3 = Inr b \<longrightarrow>
          \<not> sublist ''read only'' (begin_str b) \<and> \<not> sublist ''read write'' (begin_str b))
       \<and> (get_prop a1 ''deferrable'' = Inr (Prim JUndefined)
            \<and> TransactionMode this a1 a2 a3 = Inr b \<longrightarrow>
          \<not> sublist ''deferrable'' (begin_str b))"
proof (intro conjI impI)
  show "unpack a1 a2 a3 = unpack a1 b2 b3"
    by (rule unpack_record_independent [OF assms])
  then show "TransactionMode this a1 a2 a3 = TransactionMode this a1 b2 b3"
    by (simp add: TransactionMode_body_eq TransactionMode_body_def)
next
  assume h: "get_prop a1 ''tiLevel'' = Inr t \<and> get_prop a1 ''readOnly'' = Inr r
            \<and> get_prop a1 ''deferrable'' = Inr d"
  then show u: "unpack a1 a2 a3 = Inr (t, r, d)"
    using unpack_record [OF assms, of r d t a2 a3] by simp
  show "TransactionMode this a1 a2 a3
          = (case normalize_tiLevel t of
               Inl e \<Rightarrow> Inl e
             | Inr n \<Rightarrow>
                 Inr (assemble (isolationLevel_clause n) (accessMode_clause r)
                        (deferrableMode_clause d)))"
    using u by (simp add: TransactionMode_body_eq TransactionMode_body_def)
next
  assume c: "TransactionMode this a1 a2 a3 = Inr b"
  from constructed_unpacked [OF c] obtain t r d where "unpack a1 a2 a3 = Inr (t, r, d)"
    by blast
  from unpack_record_Inr [OF assms this]
  show "\<exists>t r d. get_prop a1 ''tiLevel'' = Inr t \<and> get_prop a1 ''readOnly'' = Inr r
               \<and> get_prop a1 ''deferrable'' = Inr d"
    by blast
next
  assume "is_absent a1 ''readOnly''"
  then show "get_prop a1 ''readOnly'' = Inr (Prim JUndefined)" by (rule get_prop_absent)
next
  assume "is_absent a1 ''deferrable''"
  then show "get_prop a1 ''deferrable'' = Inr (Prim JUndefined)" by (rule get_prop_absent)
next
  assume h: "get_prop a1 ''readOnly'' = Inr (Prim JUndefined)
            \<and> TransactionMode this a1 a2 a3 = Inr b"
  then have c: "TransactionMode this a1 a2 a3 = Inr b" by simp
  from constructed_unpacked [OF c] obtain t r d where u: "unpack a1 a2 a3 = Inr (t, r, d)"
    by blast
  from unpack_record_Inr [OF assms u] h have r: "r = Prim JUndefined" by simp
  from constructed_triple [OF c u] obtain n where
    b: "b = assemble (isolationLevel_clause n) (accessMode_clause r) (deferrableMode_clause d)"
    and m: "(isolationLevel_clause n, accessMode_clause r, deferrableMode_clause d)
              \<in> set clause_triples"
    by blast
  have both: "\<not> sublist ''read only'' (begin_str b) \<and> \<not> sublist ''read write'' (begin_str b)"
    unfolding b using commands_lookup [OF commands_access m, unfolded prod.case]
    by (simp add: r accessMode_clause_def)
  from both show "\<not> sublist ''read only'' (begin_str b)" by simp
  from both show "\<not> sublist ''read write'' (begin_str b)" by simp
next
  assume h: "get_prop a1 ''deferrable'' = Inr (Prim JUndefined)
            \<and> TransactionMode this a1 a2 a3 = Inr b"
  then have c: "TransactionMode this a1 a2 a3 = Inr b" by simp
  from constructed_unpacked [OF c] obtain t r d where u: "unpack a1 a2 a3 = Inr (t, r, d)"
    by blast
  from unpack_record_Inr [OF assms u] h have d: "d = Prim JUndefined" by simp
  from constructed_triple [OF c u] obtain n where
    b: "b = assemble (isolationLevel_clause n) (accessMode_clause r) (deferrableMode_clause d)"
    and m: "(isolationLevel_clause n, accessMode_clause r, deferrableMode_clause d)
              \<in> set clause_triples"
    by blast
  show "\<not> sublist ''deferrable'' (begin_str b)"
    unfolding b using commands_lookup [OF commands_deferrable m, unfolded prod.case]
    by (simp add: d deferrableMode_clause_def)
qed

theorem record_overrides_positional_witness:
  "ToBoolean (plain_object [(''tiLevel'', int_value 1)])
   \<and> typeof (plain_object [(''tiLevel'', int_value 1)]) = ''object''
   \<and> is_absent (plain_object [(''tiLevel'', int_value 1)]) ''readOnly''
   \<and> is_absent (plain_object [(''tiLevel'', int_value 1)]) ''deferrable''
   \<and> TransactionMode NewInstance (plain_object [(''tiLevel'', int_value 1)])
        (bool_value True) (bool_value False)
      = Inr \<lparr>begin_str = ''begin isolation level serializable'',
             capBegin = ''BEGIN ISOLATION LEVEL SERIALIZABLE''\<rparr>
   \<and> TransactionMode NewInstance (plain_object [(''tiLevel'', int_value 1)])
        (bool_value True) (bool_value False)
      = TransactionMode NewInstance (plain_object [(''tiLevel'', int_value 1)])
          undefined_value undefined_value
   \<and> \<not> sublist ''read only'' ''begin isolation level serializable''
   \<and> \<not> sublist ''deferrable'' ''begin isolation level serializable''
   \<and> get_prop (with_methods False [] (Some (plain_object
        [(''tiLevel'', int_value 2), (''readOnly'', bool_value True)])) ReturnsObject
        (ReturnsPrim (JString (units ''[object Object]'')))) ''tiLevel'' = Inr (int_value 2)
   \<and> TransactionMode NewInstance
        (with_methods False [] (Some (plain_object
          [(''tiLevel'', int_value 2), (''readOnly'', bool_value True)])) ReturnsObject
          (ReturnsPrim (JString (units ''[object Object]''))))
        (bool_value False) (bool_value True)
      = Inr \<lparr>begin_str = ''begin isolation level repeatable read read only'',
             capBegin = ''BEGIN ISOLATION LEVEL REPEATABLE READ READ ONLY''\<rparr>"
proof -
  let ?o = "plain_object [(''tiLevel'', int_value 1)]"
  let ?b = "\<lparr>begin_str = ''begin isolation level serializable'',
             capBegin = ''BEGIN ISOLATION LEVEL SERIALIZABLE''\<rparr>"
  let ?q = "with_methods False [] (Some (plain_object
        [(''tiLevel'', int_value 2), (''readOnly'', bool_value True)])) ReturnsObject
        (ReturnsPrim (JString (units ''[object Object]'')))"
  let ?c = "\<lparr>begin_str = ''begin isolation level repeatable read read only'',
             capBegin = ''BEGIN ISOLATION LEVEL REPEATABLE READ READ ONLY''\<rparr>"
  have t: "ToBoolean ?o" by (simp add: plain_object_def with_methods_def)
  have o: "typeof ?o = ''object''" by (simp add: plain_object_def with_methods_def)
  have r: "is_absent ?o ''readOnly''" by (simp add: plain_object_def with_methods_def)
  have d: "is_absent ?o ''deferrable''" by (simp add: plain_object_def with_methods_def)
  have c: "TransactionMode NewInstance ?o (bool_value True) (bool_value False) = Inr ?b"
    by (simp add: constructor_defs)
  have tq: "ToBoolean ?q" by (simp add: with_methods_def)
  have oq: "typeof ?q = ''object''" by (simp add: with_methods_def)
  have gq: "get_prop ?q ''tiLevel'' = Inr (int_value 2)
          \<and> get_prop ?q ''readOnly'' = Inr (bool_value True)
          \<and> get_prop ?q ''deferrable'' = Inr (Prim JUndefined)"
    by (simp add: plain_object_def with_methods_def)
  have nq: "normalize_tiLevel (int_value 2) = Inr (Fin 2 0)"
    by (simp add: constructor_defs)
  have aq: "assemble (isolationLevel_clause (Fin 2 0)) (accessMode_clause (bool_value True))
              (deferrableMode_clause (Prim JUndefined)) = ?c"
    by (simp add: constructor_defs)
  note at_o = record_overrides_positional [OF t o, of "bool_value True" "bool_value False"
        undefined_value undefined_value NewInstance _ _ _ ?b]
  note at_q = record_overrides_positional [OF tq oq, of "bool_value False" "bool_value True"
        undefined_value undefined_value NewInstance "int_value 2" "bool_value True"
        "Prim JUndefined"]
  have same: "TransactionMode NewInstance ?o (bool_value True) (bool_value False)
      = TransactionMode NewInstance ?o undefined_value undefined_value"
    using at_o by blast
  have ro: "\<not> sublist ''read only'' (begin_str ?b)"
    using at_o r c by blast
  have de: "\<not> sublist ''deferrable'' (begin_str ?b)"
    using at_o d c by blast
  have "TransactionMode NewInstance ?q (bool_value False) (bool_value True)
          = (case normalize_tiLevel (int_value 2) of
               Inl e \<Rightarrow> Inl e
             | Inr n \<Rightarrow>
                 Inr (assemble (isolationLevel_clause n) (accessMode_clause (bool_value True))
                        (deferrableMode_clause (Prim JUndefined))))"
    using at_q gq by blast
  then have inherited: "TransactionMode NewInstance ?q (bool_value False) (bool_value True) = Inr ?c"
    by (simp add: nq aq)
  show ?thesis
    using t o r d c same ro de gq inherited by simp
qed

text \<open>
  C9. The registry has exactly the four members \<^verbatim>\<open>none = 0\<close>, \<^verbatim>\<open>serializable = 1\<close>,
  \<^verbatim>\<open>repeatableRead = 2\<close> and \<^verbatim>\<open>readCommitted = 3\<close>; after line 22 no member is writable
  or configurable and the object is not extensible. Every attempt to alter it
  (assignment, deletion, property definition, preventing extensions, setting the
  prototype) leaves it as it is, and is followed by the model: it is refused, or it
  throws, or it is done with nothing to do. An assignment to any name other than
  \<^verbatim>\<open>__proto__\<close> is refused: a \<^verbatim>\<open>TypeError\<close> in strict code, passed over in sloppy code.
  An assignment to \<^verbatim>\<open>__proto__\<close> runs the inherited setter, which ignores a primitive
  value other than \<^verbatim>\<open>null\<close>, does nothing for the prototype the registry has, and
  throws for \<^verbatim>\<open>null\<close> and for any other object; \<^verbatim>\<open>Reflect.setPrototypeOf\<close> answers
  alike, refusing where the setter throws. The deletion of a member is refused, and
  so is the definition of \<^verbatim>\<open>none\<close> with the value \<^verbatim>\<open>-0\<close>. Every
  sequence of attempts leaves the object as it is. The constructor's one write to a
  property goes to an instance, never to the registry, also when the function is
  called with the registry as \<^verbatim>\<open>this\<close>; the query writes nothing; so the registry is
  the same after any sequence of attempts and calls.
\<close>

theorem isolationLevel_registry_frozen:
  "map (\<lambda>(k, p). (k, pvalue p)) (own isolationLevel)
     = [(''none'', int_value 0), (''serializable'', int_value 1),
        (''repeatableRead'', int_value 2), (''readCommitted'', int_value 3)]
   \<and> list_all (\<lambda>(k, p). \<not> writable p \<and> \<not> configurable p) (own isolationLevel)
   \<and> \<not> extensible isolationLevel
   \<and> snd (alter a isolationLevel) = isolationLevel
   \<and> fst (alter a isolationLevel) \<in> {Done, Refused, Thrown}
   \<and> (alter_strict a isolationLevel = Some (Inl TypeError)
        \<or> alter_strict a isolationLevel = Some (Inr isolationLevel))
   \<and> (alter_sloppy a isolationLevel = Some (Inl TypeError)
        \<or> alter_sloppy a isolationLevel = Some (Inr isolationLevel))
   \<and> (k \<noteq> ''__proto__'' \<longrightarrow>
        alter_strict (Assign k v) isolationLevel = Some (Inl TypeError)
        \<and> alter_sloppy (Assign k v) isolationLevel = Some (Inr isolationLevel))
   \<and> alter_strict (Assign ''__proto__'' (Prim p)) isolationLevel
       = (if p = JNull then Some (Inl TypeError) else Some (Inr isolationLevel))
   \<and> alter_strict (AssignProto q) isolationLevel
       = (if q = ObjectPrototype then Some (Inr isolationLevel) else Some (Inl TypeError))
   \<and> alter (SetPrototypeOf q) isolationLevel
       = (if q = ObjectPrototype then Done else Refused, isolationLevel)
   \<and> list_all (\<lambda>k. alter_strict (Delete k) isolationLevel = Some (Inl TypeError))
        [''none'', ''serializable'', ''repeatableRead'', ''readCommitted'']
   \<and> alter (DefineProperty ''none''
        \<lparr>d_value = Some (Prim (JNumber NegZero)), d_writable = None, d_enumerable = None,
         d_configurable = None, d_accessor = False\<rparr>) isolationLevel
       = (Refused, isolationLevel)
   \<and> foldl (\<lambda>obj a. snd (alter a obj)) isolationLevel as = isolationLevel
   \<and> list_all (\<lambda>(target, a). target \<noteq> ThisRegistry) (TransactionMode_writes this a1 a2 a3)
   \<and> begin_writes b cap = []
   \<and> registry_after (ws @ TransactionMode_writes this a1 a2 a3 @ begin_writes b cap @ ws')
       isolationLevel = isolationLevel"
proof -
  have unchanged: "snd (alter a isolationLevel) = isolationLevel"
    and followed: "fst (alter a isolationLevel) \<noteq> LeavesModel"
    using alter_isolationLevel [of a] by simp_all
  have outcome: "fst (alter a isolationLevel) \<in> {Done, Refused, Thrown}"
    using followed by (cases "fst (alter a isolationLevel)") simp_all
  have strict: "alter_strict a isolationLevel = Some (Inl TypeError)
        \<or> alter_strict a isolationLevel = Some (Inr isolationLevel)"
    using unchanged followed
    by (cases "alter a isolationLevel"; cases "fst (alter a isolationLevel)")
       (auto simp: alter_strict_def)
  have sloppy: "alter_sloppy a isolationLevel = Some (Inl TypeError)
        \<or> alter_sloppy a isolationLevel = Some (Inr isolationLevel)"
    using unchanged followed
    by (cases "alter a isolationLevel"; cases "fst (alter a isolationLevel)")
       (auto simp: alter_sloppy_def)
  have assign: "k \<noteq> ''__proto__'' \<longrightarrow>
        alter_strict (Assign k v) isolationLevel = Some (Inl TypeError)
        \<and> alter_sloppy (Assign k v) isolationLevel = Some (Inr isolationLevel)"
    using assign_isolationLevel_refused [of k v]
    by (simp add: alter_strict_def alter_sloppy_def)
  have setter_prim: "alter_strict (Assign ''__proto__'' (Prim p)) isolationLevel
       = (if p = JNull then Some (Inl TypeError) else Some (Inr isolationLevel))"
    using isolationLevel_no_proto_member proto_isolationLevel extensible_isolationLevel
    by (cases p)
       (simp_all add: alter_strict_def Set_method_def proto_setter_def SetPrototypeOf_method_def)
  have setter_object: "alter_strict (AssignProto q) isolationLevel
       = (if q = ObjectPrototype then Some (Inr isolationLevel) else Some (Inl TypeError))"
    using isolationLevel_no_proto_member proto_isolationLevel extensible_isolationLevel
    by (simp add: alter_strict_def AssignProto_method_def proto_setter_def
        SetPrototypeOf_method_def)
  have reflect: "alter (SetPrototypeOf q) isolationLevel
       = (if q = ObjectPrototype then Done else Refused, isolationLevel)"
    using proto_isolationLevel extensible_isolationLevel
    by (simp add: SetPrototypeOf_method_def)
  have delete: "list_all (\<lambda>k. alter_strict (Delete k) isolationLevel = Some (Inl TypeError))
        [''none'', ''serializable'', ''repeatableRead'', ''readCommitted'']"
    using delete_member_refused by (simp add: alter_strict_def)
  have zero: "alter (DefineProperty ''none''
        \<lparr>d_value = Some (Prim (JNumber NegZero)), d_writable = None, d_enumerable = None,
         d_configurable = None, d_accessor = False\<rparr>) isolationLevel
       = (Refused, isolationLevel)"
    by (simp add: own_isolationLevel DefineOwnProperty_method_def SameValue_def int_value_def)
  have target: "list_all (\<lambda>(target, a). target \<noteq> ThisRegistry)
                  (TransactionMode_writes this a1 a2 a3)"
    by (cases this)
       (auto simp: TransactionMode_writes_def body_receiver_def instanceof_TransactionMode_def
          split: sum.splits)
  have writes: "begin_writes b cap = []" by (simp add: begin_writes_def)
  show ?thesis
    using unchanged outcome strict sloppy assign setter_prim setter_object reflect delete zero target
      writes alter_all_isolationLevel [of as] extensible_isolationLevel
      registry_after_isolationLevel
    by (simp add: own_isolationLevel)
qed

theorem isolationLevel_registry_frozen_witness:
  "''none'' \<noteq> ''__proto__''
   \<and> alter_strict (Assign ''none'' (int_value 7)) isolationLevel = Some (Inl TypeError)
   \<and> alter_sloppy (Assign ''none'' (int_value 7)) isolationLevel = Some (Inr isolationLevel)
   \<and> alter_strict (Assign ''__proto__'' (int_value 5)) isolationLevel = Some (Inr isolationLevel)
   \<and> TransactionMode_writes ThisRegistry undefined_value undefined_value undefined_value
       = [(ThisInstance, Assign ''begin'' begin_function)]"
proof -
  have k: "''none'' \<noteq> ''__proto__''" by simp
  note at_none = isolationLevel_registry_frozen
    [where k = "''none''" and v = "int_value 7" and p = "JNumber (Fin 5 0)"]
  have first: "alter_strict (Assign ''none'' (int_value 7)) isolationLevel = Some (Inl TypeError)
     \<and> alter_sloppy (Assign ''none'' (int_value 7)) isolationLevel = Some (Inr isolationLevel)"
    using k at_none by blast
  have "alter_strict (Assign ''__proto__'' (Prim (JNumber (Fin 5 0)))) isolationLevel
          = (if JNumber (Fin 5 0) = JNull then Some (Inl TypeError) else Some (Inr isolationLevel))"
    using at_none by blast
  then have second: "alter_strict (Assign ''__proto__'' (int_value 5)) isolationLevel
          = Some (Inr isolationLevel)"
    by (simp add: int_value_def)
  have third: "TransactionMode_writes ThisRegistry undefined_value undefined_value undefined_value
       = [(ThisInstance, Assign ''begin'' begin_function)]"
    by (simp add: TransactionMode_writes_def this_binding_of_def body_receiver_def
        instanceof_TransactionMode_def constructor_defs)
  show ?thesis
    using k first second third by blast
qed

end
